theory Spec2Isabelle
  imports Complex_Main "HOL-Library.Product_Lexorder" "HOL-Library.Monad_Syntax"
    "HOL-Library.Multiset"
begin

section \<open>Values of the Python runtime\<close>

subsection \<open>Floats\<close>

text \<open>
  The monitor only ever compares floats with \<open><\<close> and \<open>>\<close>. A float is modelled by the
  number it denotes (every finite double is a rational), the two infinities, or NaN;
  the comparison is the IEEE one Python uses: false as soon as one side is NaN.
\<close>

datatype pyfloat = Finite rat | PosInf | NegInf | NaN

fun float_lt :: "pyfloat \<Rightarrow> pyfloat \<Rightarrow> bool" where
  "float_lt NaN b = False"
| "float_lt a NaN = False"
| "float_lt (Finite a) (Finite b) = (a < b)"
| "float_lt (Finite a) PosInf = True"
| "float_lt NegInf (Finite b) = True"
| "float_lt NegInf PosInf = True"
| "float_lt a b = False"

definition float_gt :: "pyfloat \<Rightarrow> pyfloat \<Rightarrow> bool" where
  "float_gt a b = float_lt b a"

subsection \<open>Exceptions\<close>

text \<open>
  The two exception classes the monitor can raise. A \<open>ValueError\<close> is modelled by what
  raised it, not by the text of its message: the builtin \<open>int\<close> or \<open>float\<close> together
  with the text it rejected, or the check of \<open>strptime\<close> that failed together with the
  text the message shows. The message is determined by these.
\<close>

datatype cause =
    Int_rejects string  \<comment> \<open>\<open>int(s)\<close> raised, on the text \<open>s\<close>\<close>
  | Float_rejects string  \<comment> \<open>\<open>float(s)\<close> raised, on the text \<open>s\<close>\<close>
  | No_match string string  \<comment> \<open>time data \<open>s\<close> does not match format \<open>f\<close>\<close>
  | Unconverted string  \<comment> \<open>unconverted data remains: \<open>s\<close>\<close>
  | Year_out_of_range  \<comment> \<open>year 0 is out of range\<close>
  | Day_out_of_range  \<comment> \<open>day is out of range for month\<close>
  | Second_out_of_range  \<comment> \<open>second must be in 0..59\<close>

datatype error = IndexError | ValueError cause

subsection \<open>Strings\<close>

text \<open>
  A string is a list of characters with code points below 256. \<open>isspace\<close> is
  \<open>str.isspace\<close> on that range (which is also what \<open>\s\<close> matches), \<open>isdigit\<close> is what
  \<open>\d\<close> and \<open>[0-9]\<close> match there. \<open>index\<close> is \<open>fields[i]\<close> for a non-negative literal
  \<open>i\<close>: out of range it raises.
\<close>

definition isspace :: "char \<Rightarrow> bool" where
  "isspace c = ((of_char c :: nat) \<in> {9, 10, 11, 12, 13, 28, 29, 30, 31, 32, 133, 160})"

definition isdigit :: "char \<Rightarrow> bool" where
  "isdigit c = (48 \<le> (of_char c :: nat) \<and> (of_char c :: nat) \<le> 57)"

definition digit_val :: "char \<Rightarrow> nat" where
  "digit_val c = of_char c - 48"

definition dec_value :: "string \<Rightarrow> nat" where
  "dec_value s = foldl (\<lambda>a c. 10 * a + digit_val c) 0 s"

definition strip :: "string \<Rightarrow> string" where
  "strip s = rev (dropWhile isspace (rev (dropWhile isspace s)))"

fun split :: "char \<Rightarrow> string \<Rightarrow> string list" where
  "split sep [] = [[]]"
| "split sep (c # cs) =
     (if c = sep then [] # split sep cs
      else (case split sep cs of f # fs \<Rightarrow> (c # f) # fs | [] \<Rightarrow> [[c]]))"

definition index :: "'a list \<Rightarrow> nat \<Rightarrow> error + 'a" where
  "index xs i = (if i < length xs then Inr (xs ! i) else Inl IndexError)"

text \<open>Sequencing of calls that may raise: the first exception is the result.\<close>

definition and_then :: "error + 'a \<Rightarrow> ('a \<Rightarrow> error + 'b) \<Rightarrow> error + 'b" where
  "and_then r f = (case r of Inl e \<Rightarrow> Inl e | Inr x \<Rightarrow> f x)"

subsection \<open>datetime and timedelta\<close>

text \<open>
  A naive \<open>datetime\<close> is its seven fields. Two datetimes are ordered as the tuples of
  their fields (\<open>dt_key\<close>); their difference is a \<open>timedelta\<close>, modelled by its total
  number of microseconds, computed from the proleptic Gregorian ordinal of the date as
  the library does.
\<close>

record datetime =
  year :: nat
  month :: nat
  day :: nat
  hour :: nat
  minute :: nat
  second :: nat
  microsecond :: nat

type_synonym timedelta = int

definition dt_key :: "datetime \<Rightarrow> nat \<times> nat \<times> nat \<times> nat \<times> nat \<times> nat \<times> nat" where
  "dt_key d = (year d, month d, day d, hour d, minute d, second d, microsecond d)"

definition is_leap :: "nat \<Rightarrow> bool" where
  "is_leap y = (y mod 4 = 0 \<and> (y mod 100 \<noteq> 0 \<or> y mod 400 = 0))"

definition days_before_year :: "nat \<Rightarrow> int" where
  "days_before_year y =
     (let p = int y - 1 in p * 365 + p div 4 - p div 100 + p div 400)"

definition DAYS_IN_MONTH :: "nat list" where
  "DAYS_IN_MONTH = [0, 31, 28, 31, 30, 31, 30, 31, 31, 30, 31, 30, 31]"

definition DAYS_BEFORE_MONTH :: "nat list" where
  "DAYS_BEFORE_MONTH = [0, 0, 31, 59, 90, 120, 151, 181, 212, 243, 273, 304, 334]"

definition days_in_month :: "nat \<Rightarrow> nat \<Rightarrow> nat" where
  "days_in_month y m = (if m = 2 \<and> is_leap y then 29 else DAYS_IN_MONTH ! m)"

definition days_before_month :: "nat \<Rightarrow> nat \<Rightarrow> nat" where
  "days_before_month y m =
     DAYS_BEFORE_MONTH ! m + (if m > 2 \<and> is_leap y then 1 else 0)"

definition toordinal :: "datetime \<Rightarrow> int" where
  "toordinal d =
     days_before_year (year d) + int (days_before_month (year d) (month d)) + int (day d)"

definition total_microseconds :: "datetime \<Rightarrow> int" where
  "total_microseconds d =
     ((toordinal d * 86400 + int (hour d) * 3600 + int (minute d) * 60 + int (second d))
        * 1000000) + int (microsecond d)"

definition dt_sub :: "datetime \<Rightarrow> datetime \<Rightarrow> timedelta" where
  "dt_sub a b = total_microseconds a - total_microseconds b"

definition timedelta_minutes :: "int \<Rightarrow> timedelta" where
  "timedelta_minutes n = n * 60 * 1000000"

subsection \<open>strptime and strftime\<close>

text \<open>
  \<open>datetime.strptime\<close> turns the format into a regular expression and matches it
  against a prefix of the text with a backtracking matcher. Each directive below returns
  its possible matches, every one with the text left over, in the order the matcher
  tries them; the match \<open>strptime\<close> uses is the first one of the whole expression. The
  regular expressions are those of the library:
  \<^verbatim>\<open>%Y  \d\d\d\d\<close>,
  \<^verbatim>\<open>%m  1[0-2]|0[1-9]|[1-9]\<close>,
  \<^verbatim>\<open>%d  3[0-1]|[1-2]\d|0[1-9]|[1-9]| [1-9]\<close>,
  \<^verbatim>\<open>%H  2[0-3]|[0-1]\d|\d\<close>,
  \<^verbatim>\<open>%M  [0-5]\d|\d\<close>,
  \<^verbatim>\<open>%S  6[0-1]|[0-5]\d|\d\<close>,
  \<^verbatim>\<open>%f  [0-9]{1,6}\<close>;
  a blank in the format is \<^verbatim>\<open>\s+\<close>.
\<close>

definition rx_one :: "(nat \<Rightarrow> bool) \<Rightarrow> string \<Rightarrow> (nat \<times> string) list" where
  "rx_one p s =
     (case s of
        a # r \<Rightarrow> if isdigit a \<and> p (digit_val a) then [(digit_val a, r)] else []
      | [] \<Rightarrow> [])"

definition rx_two ::
  "(nat \<Rightarrow> bool) \<Rightarrow> (nat \<Rightarrow> bool) \<Rightarrow> string \<Rightarrow> (nat \<times> string) list" where
  "rx_two p q s =
     (case s of
        a # b # r \<Rightarrow>
          if isdigit a \<and> isdigit b \<and> p (digit_val a) \<and> q (digit_val b)
          then [(10 * digit_val a + digit_val b, r)] else []
      | _ \<Rightarrow> [])"

definition rx_Y :: "string \<Rightarrow> (nat \<times> string) list" where
  "rx_Y s =
     (case s of
        a # b # c # d # r \<Rightarrow>
          if isdigit a \<and> isdigit b \<and> isdigit c \<and> isdigit d
          then [(dec_value [a, b, c, d], r)] else []
      | _ \<Rightarrow> [])"

definition rx_m :: "string \<Rightarrow> (nat \<times> string) list" where
  "rx_m s = rx_two (\<lambda>a. a = 1) (\<lambda>b. b \<le> 2) s @ rx_two (\<lambda>a. a = 0) (\<lambda>b. 1 \<le> b) s
            @ rx_one (\<lambda>a. 1 \<le> a) s"

definition rx_d :: "string \<Rightarrow> (nat \<times> string) list" where
  "rx_d s = rx_two (\<lambda>a. a = 3) (\<lambda>b. b \<le> 1) s @ rx_two (\<lambda>a. 1 \<le> a \<and> a \<le> 2) (\<lambda>b. True) s
            @ rx_two (\<lambda>a. a = 0) (\<lambda>b. 1 \<le> b) s @ rx_one (\<lambda>a. 1 \<le> a) s
            @ (case s of c # r \<Rightarrow> if c = CHR '' '' then rx_one (\<lambda>a. 1 \<le> a) r else []
               | [] \<Rightarrow> [])"

definition rx_H :: "string \<Rightarrow> (nat \<times> string) list" where
  "rx_H s = rx_two (\<lambda>a. a = 2) (\<lambda>b. b \<le> 3) s @ rx_two (\<lambda>a. a \<le> 1) (\<lambda>b. True) s
            @ rx_one (\<lambda>a. True) s"

definition rx_M :: "string \<Rightarrow> (nat \<times> string) list" where
  "rx_M s = rx_two (\<lambda>a. a \<le> 5) (\<lambda>b. True) s @ rx_one (\<lambda>a. True) s"

definition rx_S :: "string \<Rightarrow> (nat \<times> string) list" where
  "rx_S s = rx_two (\<lambda>a. a = 6) (\<lambda>b. b \<le> 1) s @ rx_two (\<lambda>a. a \<le> 5) (\<lambda>b. True) s
            @ rx_one (\<lambda>a. True) s"

definition rx_lit :: "char \<Rightarrow> string \<Rightarrow> string list" where
  "rx_lit c s = (case s of x # r \<Rightarrow> if x = c then [r] else [] | [] \<Rightarrow> [])"

definition rx_space :: "string \<Rightarrow> string list" where
  \<comment> \<open>greedy: the longest run of blanks first, then shorter ones, never none\<close>
  "rx_space s =
     (let n = length (takeWhile isspace s) in map (\<lambda>k. drop k s) (rev [1 ..< Suc n]))"

definition rx_f :: "string \<Rightarrow> (nat \<times> string) list" where
  \<comment> \<open>greedy, at most six digits; the digits are padded with zeros on the right to six\<close>
  "rx_f s =
     (let n = min 6 (length (takeWhile isdigit s))
      in map (\<lambda>k. (dec_value (take k s @ replicate (6 - k) CHR ''0''), drop k s))
             (rev [1 ..< Suc n]))"

datatype format = WithFraction | WholeSecond

definition format_text :: "format \<Rightarrow> string" where
  "format_text fmt =
     (case fmt of WithFraction \<Rightarrow> ''%Y%m%d %H:%M:%S.%f'' | WholeSecond \<Rightarrow> ''%Y%m%d %H:%M:%S'')"

definition match_format ::
  "format \<Rightarrow> string \<Rightarrow> ((nat \<times> nat \<times> nat \<times> nat \<times> nat \<times> nat \<times> nat) \<times> string) list" where
  "match_format fmt s = do {
     (Y, s1) \<leftarrow> rx_Y s;
     (m, s2) \<leftarrow> rx_m s1;
     (d, s3) \<leftarrow> rx_d s2;
     s4 \<leftarrow> rx_space s3;
     (H, s5) \<leftarrow> rx_H s4;
     s6 \<leftarrow> rx_lit CHR '':'' s5;
     (M, s7) \<leftarrow> rx_M s6;
     s8 \<leftarrow> rx_lit CHR '':'' s7;
     (S, s9) \<leftarrow> rx_S s8;
     (case fmt of
        WithFraction \<Rightarrow> do {
          s10 \<leftarrow> rx_lit CHR ''.'' s9;
          (f, s11) \<leftarrow> rx_f s10;
          [((Y, m, d, H, M, S, f), s11)] }
      | WholeSecond \<Rightarrow> [((Y, m, d, H, M, S, 0), s9)]) }"

text \<open>
  After the match: text left over is an error; the date is checked when the library
  computes the day of the year, the second when the \<open>datetime\<close> is built.
\<close>

definition strptime :: "string \<Rightarrow> format \<Rightarrow> error + datetime" where
  "strptime s fmt =
     (case match_format fmt s of
        [] \<Rightarrow> Inl (ValueError (No_match s (format_text fmt)))
      | ((Y, m, d, H, M, S, f), rest) # _ \<Rightarrow>
          if rest \<noteq> [] then Inl (ValueError (Unconverted rest))
          else if Y = 0 then Inl (ValueError Year_out_of_range)
          else if d > days_in_month Y m then Inl (ValueError Day_out_of_range)
          else if S > 59 then Inl (ValueError Second_out_of_range)
          else Inr \<lparr>year = Y, month = m, day = d, hour = H, minute = M, second = S,
                    microsecond = f\<rparr>)"






section \<open>The monitor\<close>

subsection \<open>Data\<close>

text \<open>
  \<open>telemetry\<close> is the dict \<open>parse_line\<close> returns, \<open>reading\<close> the dict
  \<open>process_telemetry\<close> stores, \<open>alert\<close> the dict \<open>check_violations\<close> appends.
  \<open>readings\<close> is a \<open>defaultdict(list)\<close>: a total function whose value at a key never
  stored is the empty list.
\<close>

record telemetry =
  data_timestamp :: string
  data_satelliteId :: int
  red_high_limit :: pyfloat
  yellow_high_limit :: pyfloat
  yellow_low_limit :: pyfloat
  red_low_limit :: pyfloat
  raw_value :: pyfloat
  data_component :: string

record reading =
  r_timestamp :: datetime
  r_value :: pyfloat
  r_limit :: pyfloat
  original_timestamp :: string

record alert =
  alert_satelliteId :: int
  severity :: string
  alert_component :: string
  alert_timestamp :: string

type_synonym key = "int \<times> string"

record monitor =
  readings :: "key \<Rightarrow> reading list"
  alerts :: "alert list"

definition time_window :: timedelta where
  "time_window = timedelta_minutes 5"

definition new_monitor :: monitor where
  "new_monitor = \<lparr>readings = (\<lambda>k. []), alerts = []\<rparr>"

subsection \<open>check_violations\<close>

text \<open>
  The \<open>for i in range(len(violating_readings) - 2)\<close> loop, from index \<open>i\<close> on. It
  returns the alert list: extended by the alert of the first qualifying index when that
  alert is not in the list yet, unchanged otherwise. \<open>break\<close> is the branch without a
  recursive call.
\<close>

function scan_triplets ::
  "int \<Rightarrow> string \<Rightarrow> string \<Rightarrow> reading list \<Rightarrow> nat \<Rightarrow> alert list \<Rightarrow> alert list" where
  "scan_triplets satellite_id sev component vs i als =
     (if i < length vs - 2 then
        (let r1 = vs ! i; r2 = vs ! (i + 2) in
         if dt_sub (r_timestamp r2) (r_timestamp r1) \<le> time_window then
           (let a = \<lparr>alert_satelliteId = satellite_id, severity = sev,
                      alert_component = component, alert_timestamp = original_timestamp r1\<rparr>
            in if a \<notin> set als then als @ [a] else als)
         else scan_triplets satellite_id sev component vs (i + 1) als)
      else als)"
  by pat_completeness auto
termination
  by (relation "measure (\<lambda>(s, sev, c, vs, i, als). length vs - i)") auto

declare scan_triplets.simps [simp del]

text \<open>Lines 106 to 132: the part of \<open>check_violations\<close> both known components share.\<close>

definition check_cluster ::
  "int \<Rightarrow> string \<Rightarrow> string \<Rightarrow> reading list \<Rightarrow> monitor \<Rightarrow> monitor" where
  "check_cluster satellite_id sev component violating_readings m =
     (if length violating_readings \<ge> 3 then
        (let sorted_readings = sort_key (\<lambda>x. dt_key (r_timestamp x)) violating_readings
         in m\<lparr>alerts := scan_triplets satellite_id sev component sorted_readings 0 (alerts m)\<rparr>)
      else m)"

definition check_violations :: "key \<Rightarrow> monitor \<Rightarrow> monitor" where
  "check_violations k m =
     (let satellite_id = fst k; component = snd k; rs = readings m k in
      if component = ''TSTAT'' then
        check_cluster satellite_id ''RED HIGH'' component
          (filter (\<lambda>r. float_gt (r_value r) (r_limit r)) rs) m
      else if component = ''BATT'' then
        check_cluster satellite_id ''RED LOW'' component
          (filter (\<lambda>r. float_lt (r_value r) (r_limit r)) rs) m
      else m)"

subsection \<open>process_telemetry\<close>

text \<open>
  The \<open>try\<close>/\<open>except ValueError\<close> around the two \<open>strptime\<close> calls, which
  \<open>process_telemetry\<close> and \<open>get_alerts\<close> both contain: the format with fractional
  seconds first, the whole-second format when that raises \<open>ValueError\<close>.
\<close>

definition parse_timestamp :: "string \<Rightarrow> error + datetime" where
  "parse_timestamp s =
     (case strptime s WithFraction of
        Inr dt \<Rightarrow> Inr dt
      | Inl (ValueError c) \<Rightarrow> strptime s WholeSecond
      | Inl e \<Rightarrow> Inl e)"

definition process_telemetry :: "monitor \<Rightarrow> telemetry \<Rightarrow> error + monitor" where
  "process_telemetry m data =
     and_then (parse_timestamp (data_timestamp data)) (\<lambda>ts.
       let k = (data_satelliteId data, data_component data);
           r = \<lparr>r_timestamp = ts,
                r_value = raw_value data,
                r_limit = (if data_component data = ''TSTAT'' then red_high_limit data
                           else red_low_limit data),
                original_timestamp = data_timestamp data\<rparr>;
           m' = m\<lparr>readings := (readings m)(k := readings m k @ [r])\<rparr>
       in Inr (check_violations k m'))"

subsection \<open>parse_line and process_file\<close>

text \<open>
  The builtins \<open>int\<close> and \<open>float\<close> are parameters of the model: \<open>to_int s\<close> and
  \<open>to_float s\<close> are \<open>None\<close> where the builtin raises \<open>ValueError\<close>. The entries of the
  dict are evaluated in the order they are written, so the first failing one decides the
  exception.
\<close>

definition call_int :: "(string \<Rightarrow> int option) \<Rightarrow> string \<Rightarrow> error + int" where
  "call_int to_int s =
     (case to_int s of
        Some n \<Rightarrow> Inr n
      | None \<Rightarrow> Inl (ValueError (Int_rejects s)))"

definition call_float :: "(string \<Rightarrow> pyfloat option) \<Rightarrow> string \<Rightarrow> error + pyfloat" where
  "call_float to_float s =
     (case to_float s of
        Some x \<Rightarrow> Inr x
      | None \<Rightarrow> Inl (ValueError (Float_rejects s)))"

definition parse_line ::
  "(string \<Rightarrow> int option) \<Rightarrow> (string \<Rightarrow> pyfloat option) \<Rightarrow> string \<Rightarrow> error + telemetry" where
  "parse_line to_int to_float line =
     (let fields = split CHR ''|'' (strip line) in
      and_then (index fields 0) (\<lambda>ts.
      and_then (and_then (index fields 1) (call_int to_int)) (\<lambda>sid.
      and_then (and_then (index fields 2) (call_float to_float)) (\<lambda>rh.
      and_then (and_then (index fields 3) (call_float to_float)) (\<lambda>yh.
      and_then (and_then (index fields 4) (call_float to_float)) (\<lambda>yl.
      and_then (and_then (index fields 5) (call_float to_float)) (\<lambda>rl.
      and_then (and_then (index fields 6) (call_float to_float)) (\<lambda>rv.
      and_then (index fields 7) (\<lambda>c.
        Inr \<lparr>data_timestamp = ts, data_satelliteId = sid, red_high_limit = rh,
             yellow_high_limit = yh, yellow_low_limit = yl, red_low_limit = rl,
             raw_value = rv, data_component = c\<rparr>)))))))))"

text \<open>
  \<open>process_file\<close> on the lines of the file. Nothing catches an exception of
  \<open>parse_line\<close> or \<open>process_telemetry\<close>: it ends the loop and is the result.
\<close>

fun process_file ::
  "(string \<Rightarrow> int option) \<Rightarrow> (string \<Rightarrow> pyfloat option) \<Rightarrow> monitor \<Rightarrow> string list
     \<Rightarrow> error + monitor" where
  "process_file to_int to_float m [] = Inr m"
| "process_file to_int to_float m (line # rest) =
     (if strip line = [] then process_file to_int to_float m rest
      else and_then (parse_line to_int to_float line) (\<lambda>data.
           and_then (process_telemetry m data) (\<lambda>m'.
             process_file to_int to_float m' rest)))"

text \<open>A caller that feeds parsed records one at a time, stopping at the first exception.\<close>

fun process_all :: "monitor \<Rightarrow> telemetry list \<Rightarrow> error + monitor" where
  "process_all m [] = Inr m"
| "process_all m (data # rest) = and_then (process_telemetry m data) (\<lambda>m'. process_all m' rest)"

subsection \<open>get_alerts\<close>





subsection \<open>Plain decimal text\<close>

text \<open>
  Two readers of plain decimal text (an optional sign and digits, for \<open>plain_float\<close>
  also a point and more digits), to run the monitor on concrete lines. On such text
  \<open>plain_int\<close> is \<open>int\<close>, and \<open>plain_float\<close> is \<open>float\<close> whenever the number written is a
  double.
\<close>

definition signed_digits :: "string \<Rightarrow> bool \<times> string" where
  "signed_digits s =
     (case strip s of
        c # r \<Rightarrow> if c = CHR ''-'' then (True, r) else if c = CHR ''+'' then (False, r)
                  else (False, c # r)
      | [] \<Rightarrow> (False, []))"

definition plain_int :: "string \<Rightarrow> int option" where
  "plain_int s =
     (let (neg, ds) = signed_digits s in
      if ds \<noteq> [] \<and> list_all isdigit ds
      then Some (if neg then - int (dec_value ds) else int (dec_value ds)) else None)"

definition plain_float :: "string \<Rightarrow> pyfloat option" where
  "plain_float s =
     (let (neg, t) = signed_digits s; sgn = (if neg then - 1 else 1) in
      case split CHR ''.'' t of
        [ds] \<Rightarrow> if ds \<noteq> [] \<and> list_all isdigit ds
                 then Some (Finite (sgn * of_nat (dec_value ds))) else None
      | [ds, fs] \<Rightarrow>
          if ds \<noteq> [] \<and> fs \<noteq> [] \<and> list_all isdigit ds \<and> list_all isdigit fs
          then Some (Finite (sgn * (of_nat (dec_value ds)
                                     + of_nat (dec_value fs) / 10 ^ length fs)))
          else None
      | _ \<Rightarrow> None)"

section \<open>Vocabulary of the specification\<close>

text \<open>
  The notions the specification uses to describe the tracker, written down from its
  words; the theorems below relate them to the functions above.
\<close>

definition violating :: "string \<Rightarrow> reading \<Rightarrow> bool" where
  \<comment> \<open>thermostat: value above the limit; battery: value below it; no other predicate\<close>
  "violating component r =
     (if component = ''TSTAT'' then float_gt (r_value r) (r_limit r)
      else if component = ''BATT'' then float_lt (r_value r) (r_limit r)
      else False)"

definition severity_label :: "string \<Rightarrow> string" where
  "severity_label component = (if component = ''TSTAT'' then ''RED HIGH'' else ''RED LOW'')"

definition sorted_violating :: "string \<Rightarrow> reading list \<Rightarrow> reading list" where
  \<comment> \<open>the violating readings of a history, ascending by timestamp\<close>
  "sorted_violating component rs =
     sort_key (\<lambda>x. dt_key (r_timestamp x)) (filter (violating component) rs)"

definition qualifies :: "reading list \<Rightarrow> nat \<Rightarrow> bool" where
  \<comment> \<open>the readings at \<open>i\<close> and \<open>i + 2\<close> are at most five minutes apart\<close>
  "qualifies vs i = (dt_sub (r_timestamp (vs ! (i + 2))) (r_timestamp (vs ! i)) \<le> time_window)"

definition first_cluster :: "reading list \<Rightarrow> nat option" where
  \<comment> \<open>the first qualifying index among \<open>0, \<dots>, len - 3\<close>\<close>
  "first_cluster vs = find (qualifies vs) [0 ..< length vs - 2]"

definition cluster_alert :: "key \<Rightarrow> reading \<Rightarrow> alert" where
  "cluster_alert k r =
     \<lparr>alert_satelliteId = fst k, severity = severity_label (snd k),
      alert_component = snd k, alert_timestamp = original_timestamp r\<rparr>"

definition add_alert :: "alert \<Rightarrow> alert list \<Rightarrow> alert list" where
  \<comment> \<open>append unless an equal alert is present\<close>
  "add_alert a als = (if a \<in> set als then als else als @ [a])"

definition known_component :: "string \<Rightarrow> bool" where
  "known_component component = (component = ''TSTAT'' \<or> component = ''BATT'')"

definition append_reading :: "key \<Rightarrow> reading \<Rightarrow> monitor \<Rightarrow> monitor" where
  "append_reading k r m = m\<lparr>readings := (readings m)(k := readings m k @ [r])\<rparr>"



definition reads_no_point :: "string \<Rightarrow> string \<Rightarrow> bool" where
  \<comment> \<open>\<open>r\<close> is what is left of \<open>s\<close> after a prefix without a decimal point\<close>
  "reads_no_point s r = (\<exists>pre. s = pre @ r \<and> CHR ''.'' \<notin> set pre)"

section \<open>Sample data\<close>

text \<open>
  A battery on satellite 7 reading 7.5 against a red-low limit of 8, at a time of day on
  1 January 2024, and the tracker states the examples pass through.
\<close>

definition low_battery :: "string \<Rightarrow> telemetry" where
  "low_battery ts =
     \<lparr>data_timestamp = ts, data_satelliteId = 7, red_high_limit = Finite 17,
      yellow_high_limit = Finite 15, yellow_low_limit = Finite 9, red_low_limit = Finite 8,
      raw_value = Finite (15 / 2), data_component = ''BATT''\<rparr>"

definition clock :: "nat \<Rightarrow> nat \<Rightarrow> nat \<Rightarrow> nat \<Rightarrow> datetime" where
  "clock H M S us =
     \<lparr>year = 2024, month = 1, day = 1, hour = H, minute = M, second = S, microsecond = us\<rparr>"

definition low_reading :: "string \<Rightarrow> datetime \<Rightarrow> reading" where
  "low_reading ts dt =
     \<lparr>r_timestamp = dt, r_value = Finite (15 / 2), r_limit = Finite 8, original_timestamp = ts\<rparr>"

definition tracking :: "reading list \<Rightarrow> alert list \<Rightarrow> monitor" where
  "tracking rs als = \<lparr>readings = (\<lambda>k. [])((7, ''BATT'') := rs), alerts = als\<rparr>"

definition low_alert :: "string \<Rightarrow> alert" where
  "low_alert ts =
     \<lparr>alert_satelliteId = 7, severity = ''RED LOW'', alert_component = ''BATT'',
      alert_timestamp = ts\<rparr>"

definition hot_thermostat :: "string \<Rightarrow> telemetry" where
  \<comment> \<open>a thermostat on satellite 7 reading 102.5 against a red-high limit of 101\<close>
  "hot_thermostat ts =
     \<lparr>data_timestamp = ts, data_satelliteId = 7, red_high_limit = Finite 101,
      yellow_high_limit = Finite 98, yellow_low_limit = Finite 25, red_low_limit = Finite 20,
      raw_value = Finite (205 / 2), data_component = ''TSTAT''\<rparr>"

definition unknown_device :: "string \<Rightarrow> telemetry" where
  \<comment> \<open>a component the tracker does not know, its reading far above the red-high limit\<close>
  "unknown_device ts =
     \<lparr>data_timestamp = ts, data_satelliteId = 7, red_high_limit = Finite 101,
      yellow_high_limit = Finite 98, yellow_low_limit = Finite 25, red_low_limit = Finite 20,
      raw_value = Finite 500, data_component = ''GYRO''\<rparr>"

definition at_limit_reading :: "string \<Rightarrow> datetime \<Rightarrow> reading" where
  \<comment> \<open>a battery reading exactly at its red-low limit\<close>
  "at_limit_reading ts dt =
     \<lparr>r_timestamp = dt, r_value = Finite 8, r_limit = Finite 8, original_timestamp = ts\<rparr>"

section \<open>Faults of a raw record\<close>


section \<open>Texts that parse\<close>



section \<open>Facts about the tracker\<close>

subsection \<open>The scan as a search for the first qualifying index\<close>

lemma scan_triplets_find:
  "scan_triplets sid sev c vs i als =
     (case find (qualifies vs) [i ..< length vs - 2] of
        None \<Rightarrow> als
      | Some j \<Rightarrow> add_alert \<lparr>alert_satelliteId = sid, severity = sev, alert_component = c,
                              alert_timestamp = original_timestamp (vs ! j)\<rparr> als)"
proof (induction sid sev c vs i als rule: scan_triplets.induct)
  case (1 sid sev c vs i als)
  show ?case
  proof (cases "i < length vs - 2")
    case True
    then have u: "[i ..< length vs - 2] = i # [i + 1 ..< length vs - 2]"
      by (simp add: upt_rec)
    show ?thesis
    proof (cases "qualifies vs i")
      case q: True
      then show ?thesis using True
        by (subst scan_triplets.simps) (simp add: u qualifies_def add_alert_def Let_def)
    next
      case q: False
      then have "scan_triplets sid sev c vs i als = scan_triplets sid sev c vs (i + 1) als"
        using True by (subst scan_triplets.simps) (simp add: qualifies_def Let_def)
      also have "\<dots> = (case find (qualifies vs) [i + 1 ..< length vs - 2] of
        None \<Rightarrow> als
      | Some j \<Rightarrow> add_alert \<lparr>alert_satelliteId = sid, severity = sev, alert_component = c,
                              alert_timestamp = original_timestamp (vs ! j)\<rparr> als)"
        using "1.IH"[OF True refl refl] q unfolding qualifies_def by simp
      finally show ?thesis using q by (simp add: u)
    qed
  next
    case False
    then show ?thesis by (subst scan_triplets.simps) simp
  qed
qed

lemma violating_TSTAT: "violating ''TSTAT'' = (\<lambda>r. float_gt (r_value r) (r_limit r))"
  by (rule ext) (simp add: violating_def)

lemma violating_BATT: "violating ''BATT'' = (\<lambda>r. float_lt (r_value r) (r_limit r))"
  by (rule ext) (simp add: violating_def)

lemma check_violations_known:
  "known_component (snd k) \<Longrightarrow>
   check_violations k m =
     check_cluster (fst k) (severity_label (snd k)) (snd k)
       (filter (violating (snd k)) (readings m k)) m"
  by (auto simp: known_component_def check_violations_def Let_def severity_label_def
      violating_TSTAT violating_BATT)

lemma check_violations_unknown:
  "\<not> known_component (snd k) \<Longrightarrow> check_violations k m = m"
  by (simp add: known_component_def check_violations_def Let_def)

lemma first_cluster_short: "length vs < 3 \<Longrightarrow> first_cluster vs = None"
  by (simp add: first_cluster_def)

lemma alerts_check_violations:
  "known_component (snd k) \<Longrightarrow>
   alerts (check_violations k m) =
     (case first_cluster (sorted_violating (snd k) (readings m k)) of
        None \<Rightarrow> alerts m
      | Some i \<Rightarrow> add_alert (cluster_alert k (sorted_violating (snd k) (readings m k) ! i)) (alerts m))"
  by (simp add: check_violations_known check_cluster_def scan_triplets_find first_cluster_def
      sorted_violating_def cluster_alert_def Let_def split: option.split)

lemma readings_check_violations: "readings (check_violations k m) = readings m"
  by (simp add: check_violations_def check_cluster_def Let_def)

lemma process_telemetry_eq:
  "process_telemetry m d =
     (case parse_timestamp (data_timestamp d) of
        Inl e \<Rightarrow> Inl e
      | Inr ts \<Rightarrow>
          Inr (check_violations (data_satelliteId d, data_component d)
                (append_reading (data_satelliteId d, data_component d)
                   \<lparr>r_timestamp = ts, r_value = raw_value d,
                    r_limit = (if data_component d = ''TSTAT'' then red_high_limit d
                               else red_low_limit d),
                    original_timestamp = data_timestamp d\<rparr> m)))"
  by (simp add: process_telemetry_def and_then_def append_reading_def Let_def split: sum.split)

lemma alerts_append_reading: "alerts (append_reading k r m) = alerts m"
  by (simp add: append_reading_def)

lemma readings_append_reading:
  "readings (append_reading k r m) k' = (if k' = k then readings m k @ [r] else readings m k')"
  by (simp add: append_reading_def)

lemma find_upt_Some:
  "find P [0 ..< n] = Some i \<longleftrightarrow> i < n \<and> P i \<and> (\<forall>j<i. \<not> P j)"
proof
  assume "find P [0 ..< n] = Some i"
  then obtain a where a: "a < n" "P ([0 ..< n] ! a)" "i = [0 ..< n] ! a"
    "\<forall>j<a. \<not> P ([0 ..< n] ! j)"
    by (auto simp: find_Some_iff)
  then have "i = a" by simp
  with a show "i < n \<and> P i \<and> (\<forall>j<i. \<not> P j)" by auto
next
  assume r: "i < n \<and> P i \<and> (\<forall>j<i. \<not> P j)"
  then have "i < length [0 ..< n] \<and> P ([0 ..< n] ! i) \<and> i = [0 ..< n] ! i
    \<and> (\<forall>j<i. \<not> P ([0 ..< n] ! j))"
    by auto
  then show "find P [0 ..< n] = Some i"
    unfolding find_Some_iff by blast
qed

lemma first_cluster_Some:
  "first_cluster vs = Some i \<longleftrightarrow>
     i + 2 < length vs \<and> qualifies vs i \<and> (\<forall>j<i. \<not> qualifies vs j)"
  unfolding first_cluster_def find_upt_Some by auto

lemma first_cluster_None:
  "first_cluster vs = None \<longleftrightarrow> (\<forall>i. i + 2 < length vs \<longrightarrow> \<not> qualifies vs i)"
  by (auto simp: first_cluster_def find_None_iff)

lemma distinct_add_alert: "distinct als \<Longrightarrow> distinct (add_alert a als)"
  by (simp add: add_alert_def)

lemma add_alert_present: "a \<in> set als \<Longrightarrow> add_alert a als = als"
  by (simp add: add_alert_def)

lemma alerts_check_violations_any:
  "alerts (check_violations k m) = alerts m \<or>
   (\<exists>a. alerts (check_violations k m) = add_alert a (alerts m))"
proof (cases "known_component (snd k)")
  case True
  then show ?thesis by (auto simp: alerts_check_violations split: option.split)
next
  case False
  then show ?thesis by (simp add: check_violations_unknown)
qed

lemma distinct_check_violations:
  "distinct (alerts m) \<Longrightarrow> distinct (alerts (check_violations k m))"
  using alerts_check_violations_any[of k m] by (auto simp: distinct_add_alert)

subsection \<open>Ingests and the invariants they keep\<close>

lemma process_telemetry_Inr:
  assumes "process_telemetry m d = Inr m'"
  shows "\<exists>ts. parse_timestamp (data_timestamp d) = Inr ts \<and>
     m' = check_violations (data_satelliteId d, data_component d)
            (append_reading (data_satelliteId d, data_component d)
               \<lparr>r_timestamp = ts, r_value = raw_value d,
                r_limit = (if data_component d = ''TSTAT'' then red_high_limit d
                           else red_low_limit d),
                original_timestamp = data_timestamp d\<rparr> m)"
proof (cases "parse_timestamp (data_timestamp d)")
  case (Inl e)
  with assms show ?thesis by (simp add: process_telemetry_eq)
next
  case (Inr ts)
  with assms show ?thesis by (simp add: process_telemetry_eq)
qed

lemma distinct_process_telemetry:
  assumes "distinct (alerts m)" and "process_telemetry m d = Inr m'"
  shows "distinct (alerts m')"
proof -
  from process_telemetry_Inr[OF assms(2)] obtain r where
    "m' = check_violations (data_satelliteId d, data_component d)
            (append_reading (data_satelliteId d, data_component d) r m)"
    by blast
  then show ?thesis
    using assms(1) by (simp add: distinct_check_violations alerts_append_reading)
qed

lemma and_then_Inr: "and_then r f = Inr y \<longleftrightarrow> (\<exists>x. r = Inr x \<and> f x = Inr y)"
  by (cases r) (simp_all add: and_then_def)

lemma and_then_Inl: "and_then r f = Inl e \<longleftrightarrow> r = Inl e \<or> (\<exists>x. r = Inr x \<and> f x = Inl e)"
  by (cases r) (simp_all add: and_then_def)

lemma distinct_process_all:
  "distinct (alerts m) \<Longrightarrow> process_all m ds = Inr m' \<Longrightarrow> distinct (alerts m')"
proof (induction ds arbitrary: m)
  case Nil
  then show ?case by simp
next
  case (Cons d ds)
  from Cons.prems(2) obtain m1 where
    "process_telemetry m d = Inr m1" and "process_all m1 ds = Inr m'"
    by (auto simp: and_then_Inr)
  then show ?case
    using Cons.IH[of m1] distinct_process_telemetry[OF Cons.prems(1)] by blast
qed

lemma distinct_process_file:
  "distinct (alerts m) \<Longrightarrow> process_file to_int to_float m ls = Inr m' \<Longrightarrow> distinct (alerts m')"
proof (induction ls arbitrary: m)
  case Nil
  then show ?case by simp
next
  case (Cons l ls)
  show ?case
  proof (cases "strip l = []")
    case True
    with Cons show ?thesis by simp
  next
    case False
    with Cons.prems(2) obtain d m1 where
      "process_telemetry m d = Inr m1" and "process_file to_int to_float m1 ls = Inr m'"
      by (auto simp: and_then_Inr)
    then show ?thesis
      using Cons.IH[of m1] distinct_process_telemetry[OF Cons.prems(1)] by blast
  qed
qed

lemma alerts_check_violations_known_components:
  assumes "\<forall>a\<in>set (alerts m). known_component (alert_component a)"
  shows "\<forall>a\<in>set (alerts (check_violations k m)). known_component (alert_component a)"
proof (cases "known_component (snd k)")
  case True
  have c: "known_component (alert_component (cluster_alert k r))" for r
    using True by (simp add: cluster_alert_def)
  show ?thesis
    using assms c
    by (auto simp: alerts_check_violations[OF True] add_alert_def split: option.splits if_splits)
next
  case False
  then show ?thesis using assms by (simp add: check_violations_unknown)
qed

lemma known_components_process_telemetry:
  assumes "\<forall>a\<in>set (alerts m). known_component (alert_component a)"
    and "process_telemetry m d = Inr m'"
  shows "\<forall>a\<in>set (alerts m'). known_component (alert_component a)"
proof -
  from process_telemetry_Inr[OF assms(2)] obtain r where
    m': "m' = check_violations (data_satelliteId d, data_component d)
            (append_reading (data_satelliteId d, data_component d) r m)"
    by blast
  have "\<forall>a\<in>set (alerts (append_reading (data_satelliteId d, data_component d) r m)).
          known_component (alert_component a)"
    using assms(1) by (simp add: alerts_append_reading)
  then show ?thesis
    unfolding m' by (rule alerts_check_violations_known_components)
qed

lemma known_components_process_all:
  "\<forall>a\<in>set (alerts m). known_component (alert_component a) \<Longrightarrow>
   process_all m ds = Inr m' \<Longrightarrow>
   \<forall>a\<in>set (alerts m'). known_component (alert_component a)"
proof (induction ds arbitrary: m)
  case Nil
  then show ?case by simp
next
  case (Cons d ds)
  from Cons.prems(2) obtain m1 where
    1: "process_telemetry m d = Inr m1" and 2: "process_all m1 ds = Inr m'"
    by (auto simp: and_then_Inr)
  from known_components_process_telemetry[OF Cons.prems(1) 1]
  show ?case using Cons.IH[OF _ 2] by blast
qed

lemma process_telemetry_unknown:
  assumes "\<not> known_component (data_component d)"
  shows "process_telemetry m d =
     (case parse_timestamp (data_timestamp d) of
        Inl e \<Rightarrow> Inl e
      | Inr ts \<Rightarrow>
          Inr (append_reading (data_satelliteId d, data_component d)
                 \<lparr>r_timestamp = ts, r_value = raw_value d, r_limit = red_low_limit d,
                  original_timestamp = data_timestamp d\<rparr> m))"
proof -
  have "data_component d \<noteq> ''TSTAT''"
    using assms by (auto simp: known_component_def)
  then show ?thesis
    using assms by (simp add: process_telemetry_eq check_violations_unknown split: sum.split)
qed

subsection \<open>Violating readings and their order\<close>

lemma float_lt_irrefl: "\<not> float_lt x x"
  by (cases x) simp_all

lemma violating_not_equal: "violating c r \<Longrightarrow> r_value r \<noteq> r_limit r"
  by (auto simp: violating_def float_gt_def float_lt_irrefl split: if_splits)

lemma violating_conj: "(r_value r \<noteq> r_limit r \<and> violating c r) = violating c r"
  using violating_not_equal by blast

lemma filter_violating_drop_equal:
  "filter (violating c) (filter (\<lambda>r. r_value r \<noteq> r_limit r) rs) = filter (violating c) rs"
  by (induction rs) (auto dest: violating_not_equal)

lemma alerts_check_violations_cong:
  assumes "alerts m1 = alerts m2"
    and "filter (violating (snd k)) (readings m1 k) = filter (violating (snd k)) (readings m2 k)"
  shows "alerts (check_violations k m1) = alerts (check_violations k m2)"
proof (cases "known_component (snd k)")
  case True
  have sv: "sorted_violating (snd k) (readings m1 k) = sorted_violating (snd k) (readings m2 k)"
    unfolding sorted_violating_def using assms(2) by simp
  show ?thesis
    unfolding alerts_check_violations[OF True] assms(1) sv by (rule refl)
next
  case False
  then show ?thesis using assms by (simp add: check_violations_unknown)
qed

lemma length_filter_key_le1:
  "distinct (map f xs) \<Longrightarrow> length (filter (\<lambda>x. f x = c) xs) \<le> 1"
proof (induction xs)
  case Nil
  then show ?case by simp
next
  case (Cons x xs)
  show ?case
  proof (cases "f x = c")
    case True
    with Cons.prems have "filter (\<lambda>x. f x = c) xs = []"
      by (auto simp: filter_empty_conv image_iff)
    with True show ?thesis by simp
  next
    case False
    with Cons show ?thesis by simp
  qed
qed

lemma mset_eq_short: "mset as = mset bs \<Longrightarrow> length as \<le> 1 \<Longrightarrow> as = bs"
proof (cases as)
  case Nil
  assume "mset as = mset bs"
  with Nil show ?thesis by simp
next
  case (Cons a as')
  assume m: "mset as = mset bs" and "length as \<le> 1"
  with Cons have as: "as = [a]" by simp
  with m have "mset bs = {#a#}" by simp
  then have "bs = [a]" by (simp add: mset_single_iff_right)
  with as show ?thesis by simp
qed

lemma sort_key_mset_eq:
  fixes f :: "'a \<Rightarrow> 'b::linorder"
  assumes "mset xs = mset ys" and "distinct (map f xs)"
  shows "sort_key f xs = sort_key f ys"
proof (rule properties_for_sort_key)
  show "mset (sort_key f ys) = mset xs" using assms(1) by simp
  show "sorted (map f (sort_key f ys))" by simp
next
  fix k
  have "mset (filter (\<lambda>x. f x = f k) ys) = mset (filter (\<lambda>x. f x = f k) xs)"
    using assms(1) by simp
  moreover have "length (filter (\<lambda>x. f x = f k) xs) \<le> 1"
    by (rule length_filter_key_le1[OF assms(2)])
  ultimately have "filter (\<lambda>x. f x = f k) xs = filter (\<lambda>x. f x = f k) ys"
    by (metis mset_eq_short)
  moreover have "filter (\<lambda>x. f x = f k) (sort_key f ys) = filter (\<lambda>x. f x = f k) ys"
    by (rule sort_key_stable)
  ultimately have "filter (\<lambda>x. f x = f k) (sort_key f ys) = filter (\<lambda>x. f x = f k) xs"
    by simp
  moreover have "(\<lambda>x. f k = f x) = (\<lambda>x. f x = f k)" by auto
  ultimately show "filter (\<lambda>x. f k = f x) (sort_key f ys) = filter (\<lambda>x. f k = f x) xs"
    by simp
qed

lemma sorted_violating_sorted:
  "sorted (map (\<lambda>x. dt_key (r_timestamp x)) (sorted_violating c rs))"
  by (simp add: sorted_violating_def)

lemma sorted_violating_mset:
  "mset (sorted_violating c rs) = mset (filter (violating c) rs)"
  by (simp add: sorted_violating_def)

lemma sorted_violating_perm:
  assumes "mset rs = mset rs'" and "distinct (map (\<lambda>x. dt_key (r_timestamp x)) rs)"
  shows "sorted_violating c rs = sorted_violating c rs'"
  unfolding sorted_violating_def
proof (rule sort_key_mset_eq)
  show "mset (filter (violating c) rs) = mset (filter (violating c) rs')"
    using assms(1) by simp
  show "distinct (map (\<lambda>x. dt_key (r_timestamp x)) (filter (violating c) rs))"
    using assms(2) by (rule distinct_map_filter)
qed

lemma check_violations_scan:
  assumes "known_component (snd k)"
    and "3 \<le> length (filter (violating (snd k)) (readings m k))"
  shows "alerts (check_violations k m) =
     scan_triplets (fst k) (severity_label (snd k)) (snd k)
       (sorted_violating (snd k) (readings m k)) 0 (alerts m)"
  using assms by (simp add: check_violations_known check_cluster_def sorted_violating_def)

subsection \<open>Raw records\<close>

lemma index_Inr: "index xs i = Inr x \<longleftrightarrow> i < length xs \<and> x = xs ! i"
  by (auto simp: index_def)

lemma call_int_Inr: "call_int to_int s = Inr n \<longleftrightarrow> to_int s = Some n"
  by (simp add: call_int_def split: option.split)

lemma call_float_Inr: "call_float to_float s = Inr x \<longleftrightarrow> to_float s = Some x"
  by (simp add: call_float_def split: option.split)


lemma parse_line_Inr:
  "parse_line to_int to_float line = Inr d \<longleftrightarrow>
     (let fields = split CHR ''|'' (strip line) in
      8 \<le> length fields
      \<and> data_timestamp d = fields ! 0
      \<and> to_int (fields ! 1) = Some (data_satelliteId d)
      \<and> to_float (fields ! 2) = Some (red_high_limit d)
      \<and> to_float (fields ! 3) = Some (yellow_high_limit d)
      \<and> to_float (fields ! 4) = Some (yellow_low_limit d)
      \<and> to_float (fields ! 5) = Some (red_low_limit d)
      \<and> to_float (fields ! 6) = Some (raw_value d)
      \<and> data_component d = fields ! 7)"
  by (cases d)
    (auto simp: parse_line_def Let_def and_then_Inr index_Inr call_int_Inr call_float_Inr)






subsection \<open>The timestamp texts a monitor holds\<close>











section \<open>Facts about timestamps\<close>

subsection \<open>Rendering\<close>














subsection \<open>What a match of the format can be\<close>






lemma reads_no_point_refl: "reads_no_point s s"
  unfolding reads_no_point_def by (rule exI[of _ "[]"]) simp

















lemma rx_f_suffix:
  assumes "(v, r) \<in> set (rx_f s)"
  shows "\<exists>pre. s = pre @ r"
proof -
  from assms obtain k where "r = drop k s"
    by (auto simp: rx_f_def Let_def simp del: upt_Suc)
  then show ?thesis by (metis append_take_drop_id)
qed










subsection \<open>Rendering a parsed timestamp\<close>





section \<open>The model on the sample data\<close>

subsection \<open>Timestamps\<close>

lemma foldl_zeros_raw:
  "foldl (\<lambda>a c. 10 * a + (of_char c - 48)) (a::nat) (replicate n CHR ''0'') = a * 10 ^ n"
  by (induction n arbitrary: a) simp_all

lemmas rx_defs = match_format_def rx_Y_def rx_m_def rx_d_def rx_H_def rx_M_def rx_S_def rx_f_def
  rx_lit_def rx_space_def rx_one_def rx_two_def isdigit_def isspace_def digit_val_def
  dec_value_def foldl_zeros_raw

lemmas strptime_defs = parse_timestamp_def strptime_def rx_defs days_in_month_def
  DAYS_IN_MONTH_def is_leap_def clock_def

lemma parse_000000: "parse_timestamp ''20240101 00:00:00.000'' = Inr (clock 0 0 0 0)"
  by (simp add: strptime_defs)

lemma parse_000200: "parse_timestamp ''20240101 00:02:00.000'' = Inr (clock 0 2 0 0)"
  by (simp add: strptime_defs)

lemma parse_000459: "parse_timestamp ''20240101 00:04:59.000'' = Inr (clock 0 4 59 0)"
  by (simp add: strptime_defs)

lemma parse_000500: "parse_timestamp ''20240101 00:05:00.000'' = Inr (clock 0 5 0 0)"
  by (simp add: strptime_defs)

lemma parse_000500_1: "parse_timestamp ''20240101 00:05:00.000001'' = Inr (clock 0 5 0 1)"
  by (simp add: strptime_defs)

lemma dt_sub_clock:
  "dt_sub (clock H M S us) (clock H' M' S' us') =
     ((int H * 3600 + int M * 60 + int S) * 1000000 + int us)
   - ((int H' * 3600 + int M' * 60 + int S') * 1000000 + int us')"
  by (simp add: dt_sub_def total_microseconds_def toordinal_def clock_def algebra_simps)

lemma time_window_us: "time_window = 300000000"
  by (simp add: time_window_def timedelta_minutes_def)




lemma strptime_fraction_000000:
  "strptime ''20240101 00:00:00.000'' WithFraction = Inr (clock 0 0 0 0)"
  by (simp add: strptime_defs)






text \<open>
  The matcher backtracks as the library's does: a one-digit month and day are found
  although \<open>11\<close> is tried as the month first. What the two formats reject, they reject
  for the library's reasons.
\<close>

lemma parse_short_month_and_day:
  "parse_timestamp ''202411 0:0:0'' =
     Inr \<lparr>year = 2024, month = 1, day = 1, hour = 0, minute = 0, second = 0, microsecond = 0\<rparr>"
  by (simp add: strptime_defs)

lemma parse_one_fraction_digit:
  "parse_timestamp ''2024111 00:00:00.5'' =
     Inr \<lparr>year = 2024, month = 11, day = 1, hour = 0, minute = 0, second = 0,
          microsecond = 500000\<rparr>"
  by (simp add: strptime_defs)

lemma parse_leap_day:
  "parse_timestamp ''20240229 00:00:00'' =
     Inr \<lparr>year = 2024, month = 2, day = 29, hour = 0, minute = 0, second = 0, microsecond = 0\<rparr>"
  "parse_timestamp ''20230229 00:00:00'' = Inl (ValueError Day_out_of_range)"
  by (simp_all add: strptime_defs)

lemma parse_rejects:
  "parse_timestamp ''00000101 00:00:00'' = Inl (ValueError Year_out_of_range)"
  "parse_timestamp ''20240101 00:00:60'' = Inl (ValueError Second_out_of_range)"
  "parse_timestamp ''20240101 00:00:00.1234567'' =
     Inl (ValueError (Unconverted ''.1234567''))"
  "parse_timestamp ''20240101 24:00:00'' =
     Inl (ValueError (No_match ''20240101 24:00:00'' ''%Y%m%d %H:%M:%S''))"
  by (simp_all add: strptime_defs format_text_def)

text \<open>Differences of datetimes across the end of a month, of a year and of February.\<close>

lemma dt_sub_samples:
  "dt_sub \<lparr>year = 2024, month = 3, day = 1, hour = 0, minute = 0, second = 0,
           microsecond = 250000\<rparr>
          \<lparr>year = 2024, month = 2, day = 29, hour = 23, minute = 59, second = 59,
           microsecond = 500000\<rparr> = 750000"
  "dt_sub \<lparr>year = 2024, month = 1, day = 1, hour = 0, minute = 0, second = 0, microsecond = 0\<rparr>
          \<lparr>year = 2023, month = 12, day = 31, hour = 23, minute = 59, second = 59,
           microsecond = 0\<rparr> = 1000000"
  "dt_sub \<lparr>year = 1900, month = 3, day = 1, hour = 12, minute = 0, second = 0, microsecond = 0\<rparr>
          \<lparr>year = 1900, month = 2, day = 28, hour = 12, minute = 0, second = 0,
           microsecond = 0\<rparr> = 86400000000"
  by (simp_all add: dt_sub_def total_microseconds_def toordinal_def days_before_year_def
      days_before_month_def DAYS_BEFORE_MONTH_def is_leap_def)

subsection \<open>Ingests\<close>

lemma dt_key_clock: "dt_key (clock H M S us) = (2024, 1, 1, H, M, S, us)"
  by (simp add: dt_key_def clock_def)

lemmas ingest_defs = process_telemetry_eq low_battery_def tracking_def append_reading_def
  check_violations_def check_cluster_def scan_triplets_find low_reading_def Let_def
  dt_key_clock dt_sub_clock qualifies_def add_alert_def low_alert_def time_window_us

lemma ingest_first:
  "process_telemetry new_monitor (low_battery ''20240101 00:00:00.000'') =
     Inr (tracking [low_reading ''20240101 00:00:00.000'' (clock 0 0 0 0)] [])"
  by (simp add: ingest_defs parse_000000 new_monitor_def)

lemma ingest_third:
  "process_telemetry
     (tracking [low_reading ''20240101 00:00:00.000'' (clock 0 0 0 0),
                low_reading ''20240101 00:02:00.000'' (clock 0 2 0 0)] [])
     (low_battery ''20240101 00:04:59.000'') =
   Inr (tracking [low_reading ''20240101 00:00:00.000'' (clock 0 0 0 0),
                  low_reading ''20240101 00:02:00.000'' (clock 0 2 0 0),
                  low_reading ''20240101 00:04:59.000'' (clock 0 4 59 0)]
          [low_alert ''20240101 00:00:00.000''])"
  by (simp add: ingest_defs parse_000459)

lemma ingest_second:
  "process_telemetry
     (tracking [low_reading ''20240101 00:00:00.000'' (clock 0 0 0 0)] [])
     (low_battery ''20240101 00:02:00.000'') =
   Inr (tracking [low_reading ''20240101 00:00:00.000'' (clock 0 0 0 0),
                  low_reading ''20240101 00:02:00.000'' (clock 0 2 0 0)] [])"
  by (simp add: ingest_defs parse_000200)

lemma ingest_exactly_five:
  "process_telemetry
     (tracking [low_reading ''20240101 00:00:00.000'' (clock 0 0 0 0),
                low_reading ''20240101 00:02:00.000'' (clock 0 2 0 0)] [])
     (low_battery ''20240101 00:05:00.000'') =
   Inr (tracking [low_reading ''20240101 00:00:00.000'' (clock 0 0 0 0),
                  low_reading ''20240101 00:02:00.000'' (clock 0 2 0 0),
                  low_reading ''20240101 00:05:00.000'' (clock 0 5 0 0)]
          [low_alert ''20240101 00:00:00.000''])"
  by (simp add: ingest_defs parse_000500)

lemma ingest_five_and_one:
  "process_telemetry
     (tracking [low_reading ''20240101 00:00:00.000'' (clock 0 0 0 0),
                low_reading ''20240101 00:02:00.000'' (clock 0 2 0 0)] [])
     (low_battery ''20240101 00:05:00.000001'') =
   Inr (tracking [low_reading ''20240101 00:00:00.000'' (clock 0 0 0 0),
                  low_reading ''20240101 00:02:00.000'' (clock 0 2 0 0),
                  low_reading ''20240101 00:05:00.000001'' (clock 0 5 0 1)] [])"
  by (simp add: ingest_defs parse_000500_1)

lemma ingest_repeat:
  "process_telemetry
     (tracking [low_reading ''20240101 00:00:00.000'' (clock 0 0 0 0),
                low_reading ''20240101 00:02:00.000'' (clock 0 2 0 0),
                low_reading ''20240101 00:04:59.000'' (clock 0 4 59 0)]
        [low_alert ''20240101 00:00:00.000''])
     (low_battery ''20240101 00:05:00.000'') =
   Inr (tracking [low_reading ''20240101 00:00:00.000'' (clock 0 0 0 0),
                  low_reading ''20240101 00:02:00.000'' (clock 0 2 0 0),
                  low_reading ''20240101 00:04:59.000'' (clock 0 4 59 0),
                  low_reading ''20240101 00:05:00.000'' (clock 0 5 0 0)]
          [low_alert ''20240101 00:00:00.000''])"
  by (simp add: ingest_defs parse_000500)

lemma process_all_three:
  "process_all new_monitor
     [low_battery ''20240101 00:00:00.000'', low_battery ''20240101 00:02:00.000'',
      low_battery ''20240101 00:04:59.000''] =
   Inr (tracking [low_reading ''20240101 00:00:00.000'' (clock 0 0 0 0),
                  low_reading ''20240101 00:02:00.000'' (clock 0 2 0 0),
                  low_reading ''20240101 00:04:59.000'' (clock 0 4 59 0)]
          [low_alert ''20240101 00:00:00.000''])"
  by (simp add: and_then_def ingest_first ingest_second ingest_third)

lemma sorted_violating_tracking3:
  "dt_key t1 \<le> dt_key t2 \<Longrightarrow> dt_key t2 \<le> dt_key t3 \<Longrightarrow>
   sorted_violating ''BATT''
     (readings (tracking [low_reading s1 t1, low_reading s2 t2, low_reading s3 t3] als)
        (7, ''BATT'')) =
   [low_reading s1 t1, low_reading s2 t2, low_reading s3 t3]"
  by (simp add: sorted_violating_def tracking_def violating_def low_reading_def)

lemma parse_001500: "parse_timestamp ''20240101 00:15:00.000'' = Inr (clock 0 15 0 0)"
  by (simp add: strptime_defs)

lemma ingest_later_cluster:
  "process_telemetry
     (tracking [low_reading ''20240101 00:00:00.000'' (clock 0 0 0 0),
                low_reading ''20240101 00:10:00.000'' (clock 0 10 0 0),
                low_reading ''20240101 00:12:00.000'' (clock 0 12 0 0)] [])
     (low_battery ''20240101 00:15:00.000'') =
   Inr (tracking [low_reading ''20240101 00:00:00.000'' (clock 0 0 0 0),
                  low_reading ''20240101 00:10:00.000'' (clock 0 10 0 0),
                  low_reading ''20240101 00:12:00.000'' (clock 0 12 0 0),
                  low_reading ''20240101 00:15:00.000'' (clock 0 15 0 0)]
          [low_alert ''20240101 00:10:00.000''])"
  by (simp add: ingest_defs parse_001500)

lemma sorted_violating_tracking4:
  "dt_key t1 \<le> dt_key t2 \<Longrightarrow> dt_key t2 \<le> dt_key t3 \<Longrightarrow> dt_key t3 \<le> dt_key t4 \<Longrightarrow>
   sorted_violating ''BATT''
     (readings (tracking [low_reading s1 t1, low_reading s2 t2, low_reading s3 t3,
                          low_reading s4 t4] als)
        (7, ''BATT'')) =
   [low_reading s1 t1, low_reading s2 t2, low_reading s3 t3, low_reading s4 t4]"
  by (simp add: sorted_violating_def tracking_def violating_def low_reading_def)

subsection \<open>Lines\<close>

lemmas plain_defs = plain_int_def plain_float_def signed_digits_def strip_def isspace_def
  isdigit_def dec_value_def digit_val_def

lemma plain_int_7: "plain_int ''7'' = Some 7"
  by (simp add: plain_defs)

lemma plain_float_samples:
  "plain_float ''17'' = Some (Finite 17)"
  "plain_float ''15'' = Some (Finite 15)"
  "plain_float ''9'' = Some (Finite 9)"
  "plain_float ''8'' = Some (Finite 8)"
  "plain_float ''7.5'' = Some (Finite (15 / 2))"
  "plain_float ''x'' = None"
  by (simp_all add: plain_defs)





lemma split_long:
  "split CHR ''|'' (strip ''20240101 00:00:00.000|7|17|15|9|8|7.5|BATT|extra|more'') =
     [''20240101 00:00:00.000'', ''7'', ''17'', ''15'', ''9'', ''8'', ''7.5'', ''BATT'',
      ''extra'', ''more'']"
  by (simp add: strip_def isspace_def)

lemmas parse_line_eval = parse_line_def Let_def index_def and_then_def call_int_def
  call_float_def plain_int_7 plain_float_samples





lemma parse_long:
  "parse_line plain_int plain_float ''20240101 00:00:00.000|7|17|15|9|8|7.5|BATT|extra|more'' =
     Inr (low_battery ''20240101 00:00:00.000'')"
  by (simp add: parse_line_eval split_long low_battery_def)

lemma parse_first_line:
  "parse_line plain_int plain_float ''20240101 00:00:00.000|7|17|15|9|8|7.5|BATT'' =
     Inr (low_battery ''20240101 00:00:00.000'')"
  by (simp add: parse_line_eval low_battery_def strip_def isspace_def)


lemma parse_second_line:
  "parse_line plain_int plain_float ''20240101 00:02:00.000|7|17|15|9|8|7.5|BATT'' =
     Inr (low_battery ''20240101 00:02:00.000'')"
  by (simp add: parse_line_eval low_battery_def strip_def isspace_def)

lemma parse_third_line:
  "parse_line plain_int plain_float ''20240101 00:04:59.000|7|17|15|9|8|7.5|BATT'' =
     Inr (low_battery ''20240101 00:04:59.000'')"
  by (simp add: parse_line_eval low_battery_def strip_def isspace_def)

lemma strip_blank: "strip '''' = []" "strip ''  '' = []"
  by (simp_all add: strip_def isspace_def)

lemma strip_lines:
  "strip ''20240101 00:00:00.000|7|17|15|9|8|7.5|BATT'' \<noteq> []"
  "strip ''20240101 00:02:00.000|7|17|15|9|8|7.5|BATT'' \<noteq> []"
  "strip ''20240101 00:04:59.000|7|17|15|9|8|7.5|BATT'' \<noteq> []"
  by (simp_all add: strip_def isspace_def)

lemma process_file_three:
  "process_file plain_int plain_float new_monitor
     [''20240101 00:00:00.000|7|17|15|9|8|7.5|BATT'', ''  '',
      ''20240101 00:02:00.000|7|17|15|9|8|7.5|BATT'',
      ''20240101 00:04:59.000|7|17|15|9|8|7.5|BATT''] =
   Inr (tracking [low_reading ''20240101 00:00:00.000'' (clock 0 0 0 0),
                  low_reading ''20240101 00:02:00.000'' (clock 0 2 0 0),
                  low_reading ''20240101 00:04:59.000'' (clock 0 4 59 0)]
          [low_alert ''20240101 00:00:00.000''])"
  by (simp add: strip_blank strip_lines parse_first_line parse_second_line parse_third_line
      ingest_first ingest_second ingest_third and_then_def)

section \<open>The claims\<close>

subsection \<open>C1: the clustering scan\<close>

text \<open>
  Claim C1. After an ingest for a key with a known component, let \<open>vs\<close> be the key's
  violating readings sorted by timestamp. The tracker looks at the indices
  \<open>0, \<dots>, length vs - 3\<close> in order; at the first index \<open>i\<close> whose readings \<open>vs ! i\<close> and
  \<open>vs ! (i + 2)\<close> are at most five minutes apart it emits one alert, made of the satellite
  id, the severity, the component and the original timestamp text of \<open>vs ! i\<close>, and looks
  no further; when there is no such index, in particular when there are fewer than three
  violating readings, the alerts are what they were before the ingest.
\<close>

theorem cluster_scan:
  assumes "process_telemetry m d = Inr m'"
    and "k = (data_satelliteId d, data_component d)"
    and "known_component (data_component d)"
    and "vs = sorted_violating (data_component d) (readings m' k)"
  shows "(\<forall>i. first_cluster vs = Some i \<longleftrightarrow>
               i + 2 < length vs \<and> qualifies vs i \<and> (\<forall>j<i. \<not> qualifies vs j))
       \<and> (first_cluster vs = None \<longleftrightarrow> (\<forall>i. i + 2 < length vs \<longrightarrow> \<not> qualifies vs i))
       \<and> (length vs < 3 \<longrightarrow> first_cluster vs = None)
       \<and> alerts m' = (case first_cluster vs of
                        None \<Rightarrow> alerts m
                      | Some i \<Rightarrow> add_alert (cluster_alert k (vs ! i)) (alerts m))"
proof -
  from process_telemetry_Inr[OF assms(1)] obtain r where
    m': "m' = check_violations k (append_reading k r m)"
    unfolding assms(2) by blast
  have kc: "known_component (snd k)" using assms(2,3) by simp
  have sk: "snd k = data_component d" using assms(2) by simp
  have rd: "readings m' k = readings (append_reading k r m) k"
    unfolding m' by (rule fun_cong[OF readings_check_violations])
  have "alerts m' = (case first_cluster vs of
                        None \<Rightarrow> alerts m
                      | Some i \<Rightarrow> add_alert (cluster_alert k (vs ! i)) (alerts m))"
    unfolding assms(4) rd sk[symmetric] unfolding m'
    by (simp only: alerts_check_violations[OF kc] alerts_append_reading)
  then show ?thesis
    by (simp add: first_cluster_Some first_cluster_None first_cluster_short)
qed

theorem cluster_scan_witness:
  "process_telemetry
     (tracking [low_reading ''20240101 00:00:00.000'' (clock 0 0 0 0),
                low_reading ''20240101 00:02:00.000'' (clock 0 2 0 0)] [])
     (low_battery ''20240101 00:04:59.000'') =
   Inr (tracking [low_reading ''20240101 00:00:00.000'' (clock 0 0 0 0),
                  low_reading ''20240101 00:02:00.000'' (clock 0 2 0 0),
                  low_reading ''20240101 00:04:59.000'' (clock 0 4 59 0)]
          [low_alert ''20240101 00:00:00.000''])
   \<and> known_component ''BATT''
   \<and> first_cluster [low_reading ''20240101 00:00:00.000'' (clock 0 0 0 0),
                     low_reading ''20240101 00:02:00.000'' (clock 0 2 0 0),
                     low_reading ''20240101 00:04:59.000'' (clock 0 4 59 0)] = Some 0
   \<and> [low_alert ''20240101 00:00:00.000''] =
       add_alert (cluster_alert (7, ''BATT'')
                    (low_reading ''20240101 00:00:00.000'' (clock 0 0 0 0))) []"
proof -
  let ?r1 = "low_reading ''20240101 00:00:00.000'' (clock 0 0 0 0)"
  let ?r2 = "low_reading ''20240101 00:02:00.000'' (clock 0 2 0 0)"
  let ?r3 = "low_reading ''20240101 00:04:59.000'' (clock 0 4 59 0)"
  let ?a = "low_alert ''20240101 00:00:00.000''"
  have k: "(7, ''BATT'') = (data_satelliteId (low_battery ''20240101 00:04:59.000''),
                            data_component (low_battery ''20240101 00:04:59.000''))"
    by (simp add: low_battery_def)
  have kc: "known_component (data_component (low_battery ''20240101 00:04:59.000''))"
    by (simp add: low_battery_def known_component_def)
  have vs: "[?r1, ?r2, ?r3] =
      sorted_violating (data_component (low_battery ''20240101 00:04:59.000''))
        (readings (tracking [?r1, ?r2, ?r3] [?a]) (7, ''BATT''))"
    by (simp add: low_battery_def sorted_violating_tracking3 dt_key_clock)
  have fc: "first_cluster [?r1, ?r2, ?r3] = Some 0"
    by (simp add: first_cluster_def qualifies_def low_reading_def dt_sub_clock time_window_us)
  from cluster_scan[OF ingest_third k kc vs] fc
  have "alerts (tracking [?r1, ?r2, ?r3] [?a]) =
          add_alert (cluster_alert (7, ''BATT'') ([?r1, ?r2, ?r3] ! 0))
            (alerts (tracking [?r1, ?r2] []))"
    by simp
  then have "[?a] = add_alert (cluster_alert (7, ''BATT'') ?r1) []"
    by (simp add: tracking_def)
  with ingest_third fc show ?thesis
    by (simp add: known_component_def)
qed

subsection \<open>C2: no duplicate alerts\<close>

text \<open>
  Claim C2. A candidate alert equal to an alert already present is dropped and the alert
  list stays as it is; an ingest keeps a duplicate-free alert list duplicate-free; and the
  alert list is duplicate-free after every sequence of ingests into a new monitor, fed
  as parsed records or as the lines of a file.
\<close>

theorem no_duplicate_alerts:
  "(known_component (snd k) \<longrightarrow>
      first_cluster (sorted_violating (snd k) (readings m k)) = Some i \<longrightarrow>
      cluster_alert k (sorted_violating (snd k) (readings m k) ! i) \<in> set (alerts m) \<longrightarrow>
      alerts (check_violations k m) = alerts m)
   \<and> (distinct (alerts m) \<longrightarrow> process_telemetry m d = Inr m1 \<longrightarrow> distinct (alerts m1))
   \<and> (process_all new_monitor ds = Inr m2 \<longrightarrow> distinct (alerts m2))
   \<and> (process_file to_int to_float new_monitor ls = Inr m3 \<longrightarrow> distinct (alerts m3))"
proof -
  have init: "distinct (alerts new_monitor)" by (simp add: new_monitor_def)
  have 1: "known_component (snd k) \<longrightarrow>
      first_cluster (sorted_violating (snd k) (readings m k)) = Some i \<longrightarrow>
      cluster_alert k (sorted_violating (snd k) (readings m k) ! i) \<in> set (alerts m) \<longrightarrow>
      alerts (check_violations k m) = alerts m"
    by (simp add: alerts_check_violations add_alert_present)
  show ?thesis
    using 1 distinct_process_telemetry[of m d m1] distinct_process_all[OF init, of ds m2]
      distinct_process_file[OF init, of to_int to_float ls m3]
    by blast
qed

theorem no_duplicate_alerts_witness:
  "known_component ''BATT''
   \<and> first_cluster (sorted_violating ''BATT''
         [low_reading ''20240101 00:00:00.000'' (clock 0 0 0 0),
          low_reading ''20240101 00:02:00.000'' (clock 0 2 0 0),
          low_reading ''20240101 00:04:59.000'' (clock 0 4 59 0)]) = Some 0
   \<and> alerts (check_violations (7, ''BATT'')
         (tracking [low_reading ''20240101 00:00:00.000'' (clock 0 0 0 0),
                    low_reading ''20240101 00:02:00.000'' (clock 0 2 0 0),
                    low_reading ''20240101 00:04:59.000'' (clock 0 4 59 0)]
            [low_alert ''20240101 00:00:00.000'']))
       = [low_alert ''20240101 00:00:00.000'']
   \<and> process_telemetry
         (tracking [low_reading ''20240101 00:00:00.000'' (clock 0 0 0 0),
                    low_reading ''20240101 00:02:00.000'' (clock 0 2 0 0),
                    low_reading ''20240101 00:04:59.000'' (clock 0 4 59 0)]
            [low_alert ''20240101 00:00:00.000''])
         (low_battery ''20240101 00:05:00.000'')
       = Inr (tracking [low_reading ''20240101 00:00:00.000'' (clock 0 0 0 0),
                        low_reading ''20240101 00:02:00.000'' (clock 0 2 0 0),
                        low_reading ''20240101 00:04:59.000'' (clock 0 4 59 0),
                        low_reading ''20240101 00:05:00.000'' (clock 0 5 0 0)]
                [low_alert ''20240101 00:00:00.000''])
   \<and> distinct (alerts
         (tracking [low_reading ''20240101 00:00:00.000'' (clock 0 0 0 0),
                    low_reading ''20240101 00:02:00.000'' (clock 0 2 0 0),
                    low_reading ''20240101 00:04:59.000'' (clock 0 4 59 0),
                    low_reading ''20240101 00:05:00.000'' (clock 0 5 0 0)]
            [low_alert ''20240101 00:00:00.000'']))"
proof -
  let ?r1 = "low_reading ''20240101 00:00:00.000'' (clock 0 0 0 0)"
  let ?r2 = "low_reading ''20240101 00:02:00.000'' (clock 0 2 0 0)"
  let ?r3 = "low_reading ''20240101 00:04:59.000'' (clock 0 4 59 0)"
  let ?r5 = "low_reading ''20240101 00:05:00.000'' (clock 0 5 0 0)"
  let ?a = "low_alert ''20240101 00:00:00.000''"
  let ?m3 = "tracking [?r1, ?r2, ?r3] [?a]"
  let ?m4 = "tracking [?r1, ?r2, ?r3, ?r5] [?a]"
  note t = no_duplicate_alerts[of "(7, ''BATT'')" ?m3 0 "low_battery ''20240101 00:05:00.000''"
      ?m4
      "[low_battery ''20240101 00:00:00.000'', low_battery ''20240101 00:02:00.000'',
        low_battery ''20240101 00:04:59.000'']" ?m3 plain_int plain_float
      "[''20240101 00:00:00.000|7|17|15|9|8|7.5|BATT'', ''  '',
        ''20240101 00:02:00.000|7|17|15|9|8|7.5|BATT'',
        ''20240101 00:04:59.000|7|17|15|9|8|7.5|BATT'']" ?m3]
  have kc: "known_component (snd (7::int, ''BATT''))"
    by (simp add: known_component_def)
  have sv: "sorted_violating (snd (7::int, ''BATT'')) (readings ?m3 (7, ''BATT''))
              = [?r1, ?r2, ?r3]"
    by (simp add: sorted_violating_tracking3 dt_key_clock)
  have sv': "sorted_violating ''BATT'' [?r1, ?r2, ?r3] = [?r1, ?r2, ?r3]"
    using sv by (simp add: tracking_def)
  have fc: "first_cluster [?r1, ?r2, ?r3] = Some 0"
    by (simp add: first_cluster_def qualifies_def low_reading_def dt_sub_clock time_window_us)
  have mem: "cluster_alert (7, ''BATT'') ([?r1, ?r2, ?r3] ! 0) \<in> set (alerts ?m3)"
    by (simp add: cluster_alert_def low_alert_def severity_label_def low_reading_def
        tracking_def)
  from t kc sv fc mem have 1: "alerts (check_violations (7, ''BATT'') ?m3) = alerts ?m3"
    by simp
  from t process_all_three have d3: "distinct (alerts ?m3)"
    by blast
  from t process_file_three have d3': "distinct (alerts ?m3)"
    by blast
  from t d3 ingest_repeat have d4: "distinct (alerts ?m4)"
    by blast
  from 1 d4 fc sv' ingest_repeat show ?thesis
    by (simp add: known_component_def tracking_def)
qed

subsection \<open>C3: strict thresholds\<close>

text \<open>
  Claim C3. A thermostat reading violates exactly when its value is greater than its
  limit, a battery reading exactly when its value is less than its limit, and these are the
  predicates \<open>check_violations\<close> filters with. A reading whose value equals its limit
  violates for no component, and it takes part in no cluster: removing all such readings
  from a key's history leaves the alerts of the check unchanged.
\<close>

theorem threshold_strict:
  "(violating ''TSTAT'' r \<longleftrightarrow> float_gt (r_value r) (r_limit r))
   \<and> (violating ''BATT'' r \<longleftrightarrow> float_lt (r_value r) (r_limit r))
   \<and> (float_gt (Finite a) (Finite b) \<longleftrightarrow> a > b)
   \<and> (float_lt (Finite a) (Finite b) \<longleftrightarrow> a < b)
   \<and> (known_component (snd k) \<longrightarrow>
        check_violations k m =
          check_cluster (fst k) (severity_label (snd k)) (snd k)
            (filter (violating (snd k)) (readings m k)) m)
   \<and> (r_value r = r_limit r \<longrightarrow> \<not> violating c r)
   \<and> alerts (check_violations k
          (m\<lparr>readings := (readings m)(k := filter (\<lambda>r. r_value r \<noteq> r_limit r) (readings m k))\<rparr>))
       = alerts (check_violations k m)"
proof -
  have "alerts (check_violations k
          (m\<lparr>readings := (readings m)(k := filter (\<lambda>r. r_value r \<noteq> r_limit r) (readings m k))\<rparr>))
       = alerts (check_violations k m)"
    by (rule alerts_check_violations_cong) (simp_all add: violating_conj)
  moreover have "r_value r = r_limit r \<longrightarrow> \<not> violating c r"
    using violating_not_equal[of c r] by blast
  moreover have "known_component (snd k) \<longrightarrow>
        check_violations k m =
          check_cluster (fst k) (severity_label (snd k)) (snd k)
            (filter (violating (snd k)) (readings m k)) m"
    using check_violations_known[of k m] by blast
  moreover have "violating ''TSTAT'' r \<longleftrightarrow> float_gt (r_value r) (r_limit r)"
    by (simp add: violating_TSTAT)
  moreover have "violating ''BATT'' r \<longleftrightarrow> float_lt (r_value r) (r_limit r)"
    by (simp add: violating_BATT)
  moreover have "float_gt (Finite a) (Finite b) \<longleftrightarrow> a > b"
    by (simp add: float_gt_def)
  moreover have "float_lt (Finite a) (Finite b) \<longleftrightarrow> a < b"
    by simp
  ultimately show ?thesis by blast
qed

theorem threshold_strict_witness:
  "known_component ''BATT''
   \<and> r_value (at_limit_reading ''20240101 00:01:00.000'' (clock 0 1 0 0))
       = r_limit (at_limit_reading ''20240101 00:01:00.000'' (clock 0 1 0 0))
   \<and> \<not> violating ''BATT'' (at_limit_reading ''20240101 00:01:00.000'' (clock 0 1 0 0))
   \<and> \<not> violating ''TSTAT'' (at_limit_reading ''20240101 00:01:00.000'' (clock 0 1 0 0))
   \<and> alerts (check_violations (7, ''BATT'')
         (tracking [low_reading ''20240101 00:00:00.000'' (clock 0 0 0 0),
                    low_reading ''20240101 00:02:00.000'' (clock 0 2 0 0)] []))
       = alerts (check_violations (7, ''BATT'')
         (tracking [low_reading ''20240101 00:00:00.000'' (clock 0 0 0 0),
                    at_limit_reading ''20240101 00:01:00.000'' (clock 0 1 0 0),
                    low_reading ''20240101 00:02:00.000'' (clock 0 2 0 0)] []))"
proof -
  let ?r1 = "low_reading ''20240101 00:00:00.000'' (clock 0 0 0 0)"
  let ?r2 = "low_reading ''20240101 00:02:00.000'' (clock 0 2 0 0)"
  let ?eq = "at_limit_reading ''20240101 00:01:00.000'' (clock 0 1 0 0)"
  let ?m = "tracking [?r1, ?eq, ?r2] []"
  have e: "r_value ?eq = r_limit ?eq"
    by (simp add: at_limit_reading_def)
  have u: "?m\<lparr>readings := (readings ?m)((7, ''BATT'') :=
              filter (\<lambda>r. r_value r \<noteq> r_limit r) (readings ?m (7, ''BATT'')))\<rparr>
           = tracking [?r1, ?r2] []"
    by (simp add: tracking_def low_reading_def at_limit_reading_def)
  from threshold_strict[of ?eq _ _ "(7, ''BATT'')" ?m "''BATT''"] e
  have 1: "\<not> violating ''BATT'' ?eq"
    and 2: "alerts (check_violations (7, ''BATT'')
          (?m\<lparr>readings := (readings ?m)((7, ''BATT'') :=
              filter (\<lambda>r. r_value r \<noteq> r_limit r) (readings ?m (7, ''BATT'')))\<rparr>))
       = alerts (check_violations (7, ''BATT'') ?m)"
    by blast+
  from threshold_strict[of ?eq _ _ "(7, ''BATT'')" ?m "''TSTAT''"] e
  have 3: "\<not> violating ''TSTAT'' ?eq"
    by blast
  from 1 2 3 e show ?thesis
    unfolding u by (simp add: known_component_def)
qed

subsection \<open>C4: the window is inclusive\<close>

text \<open>
  Claim C4. The window is five minutes, that is 300000000 microseconds, and it is
  inclusive. For a key with a known component, let \<open>vs\<close> be its violating readings sorted
  by timestamp, however many they are. A triple \<open>vs ! i\<close>, \<open>vs ! (i + 1)\<close>, \<open>vs ! (i + 2)\<close>
  whose first and third reading are exactly five minutes apart qualifies, and the check
  then produces an alert: that of the first qualifying triple, which is this one when no
  earlier triple qualifies. A triple spanning five minutes and one microsecond does not
  qualify, and when no triple is within the window the alerts are left as they are.
\<close>

theorem window_inclusive:
  assumes "known_component (snd k)"
    and "vs = sorted_violating (snd k) (readings m k)"
  shows "time_window = 5 * 60 * 1000000
     \<and> (\<forall>i. i + 2 < length vs \<longrightarrow>
           dt_sub (r_timestamp (vs ! (i + 2))) (r_timestamp (vs ! i)) \<le> time_window \<longrightarrow>
           (\<exists>j\<le>i. first_cluster vs = Some j
              \<and> alerts (check_violations k m) = add_alert (cluster_alert k (vs ! j)) (alerts m)
              \<and> cluster_alert k (vs ! j) \<in> set (alerts (check_violations k m))))
     \<and> (\<forall>i. i + 2 < length vs \<longrightarrow>
           dt_sub (r_timestamp (vs ! (i + 2))) (r_timestamp (vs ! i)) = time_window \<longrightarrow>
           (\<forall>j<i. time_window
                     < dt_sub (r_timestamp (vs ! (j + 2))) (r_timestamp (vs ! j))) \<longrightarrow>
           alerts (check_violations k m) = add_alert (cluster_alert k (vs ! i)) (alerts m)
           \<and> cluster_alert k (vs ! i) \<in> set (alerts (check_violations k m)))
     \<and> (\<forall>i. dt_sub (r_timestamp (vs ! (i + 2))) (r_timestamp (vs ! i)) = time_window + 1 \<longrightarrow>
           \<not> qualifies vs i)
     \<and> ((\<forall>i. i + 2 < length vs \<longrightarrow>
            time_window < dt_sub (r_timestamp (vs ! (i + 2))) (r_timestamp (vs ! i))) \<longrightarrow>
          alerts (check_violations k m) = alerts m)
     \<and> (\<forall>a b c. vs = [a, b, c] \<longrightarrow>
           alerts (check_violations k m) =
             (if dt_sub (r_timestamp c) (r_timestamp a) \<le> time_window
              then add_alert (cluster_alert k a) (alerts m) else alerts m))"
proof -
  let ?span = "\<lambda>i. dt_sub (r_timestamp (vs ! (i + 2))) (r_timestamp (vs ! i))"
  have al: "alerts (check_violations k m) =
      (case first_cluster vs of
         None \<Rightarrow> alerts m
       | Some j \<Rightarrow> add_alert (cluster_alert k (vs ! j)) (alerts m))"
    unfolding assms(2) by (rule alerts_check_violations[OF assms(1)])
  have mem: "a \<in> set (add_alert a als)" for a :: alert and als
    by (simp add: add_alert_def)
  have found: "alerts (check_violations k m) = add_alert (cluster_alert k (vs ! j)) (alerts m)
      \<and> cluster_alert k (vs ! j) \<in> set (alerts (check_violations k m))"
    if "first_cluster vs = Some j" for j
    using that al mem by simp
  have 1: "\<exists>j\<le>i. first_cluster vs = Some j
              \<and> alerts (check_violations k m) = add_alert (cluster_alert k (vs ! j)) (alerts m)
              \<and> cluster_alert k (vs ! j) \<in> set (alerts (check_violations k m))"
    if i: "i + 2 < length vs" and q: "?span i \<le> time_window" for i
  proof -
    have qi: "qualifies vs i" using q by (simp add: qualifies_def)
    with i have "first_cluster vs \<noteq> None"
      by (auto simp: first_cluster_None)
    then obtain j where j: "first_cluster vs = Some j" by blast
    then have "\<forall>j'<j. \<not> qualifies vs j'" by (simp add: first_cluster_Some)
    with qi have "j \<le> i" by (meson not_le)
    with j found[OF j] show ?thesis by blast
  qed
  have 2: "alerts (check_violations k m) = add_alert (cluster_alert k (vs ! i)) (alerts m)
           \<and> cluster_alert k (vs ! i) \<in> set (alerts (check_violations k m))"
    if i: "i + 2 < length vs" and q: "?span i = time_window"
      and e: "\<forall>j<i. time_window < ?span j" for i
  proof -
    have "qualifies vs i" using q by (simp add: qualifies_def)
    moreover have "\<forall>j<i. \<not> qualifies vs j" using e by (auto simp: qualifies_def)
    ultimately have "first_cluster vs = Some i"
      using i by (simp add: first_cluster_Some)
    then show ?thesis by (rule found)
  qed
  have 3: "\<not> qualifies vs i" if "?span i = time_window + 1" for i
    using that by (simp add: qualifies_def)
  have 4: "alerts (check_violations k m) = alerts m"
    if "\<forall>i. i + 2 < length vs \<longrightarrow> time_window < ?span i"
  proof -
    from that have "first_cluster vs = None"
      by (auto simp: first_cluster_None qualifies_def)
    with al show ?thesis by simp
  qed
  have 5: "alerts (check_violations k m) =
             (if dt_sub (r_timestamp c) (r_timestamp a) \<le> time_window
              then add_alert (cluster_alert k a) (alerts m) else alerts m)"
    if v: "vs = [a, b, c]" for a b c
  proof -
    have "first_cluster [a, b, c] =
        (if dt_sub (r_timestamp c) (r_timestamp a) \<le> time_window then Some 0 else None)"
      by (simp add: first_cluster_def qualifies_def)
    then show ?thesis
      using al unfolding v by simp
  qed
  have 0: "time_window = 5 * 60 * 1000000"
    by (simp add: time_window_def timedelta_minutes_def)
  from 0 1 2 3 4 5 show ?thesis by blast
qed

theorem window_inclusive_witness:
  "process_telemetry
     (tracking [low_reading ''20240101 00:00:00.000'' (clock 0 0 0 0),
                low_reading ''20240101 00:02:00.000'' (clock 0 2 0 0)] [])
     (low_battery ''20240101 00:05:00.000'') =
   Inr (tracking [low_reading ''20240101 00:00:00.000'' (clock 0 0 0 0),
                  low_reading ''20240101 00:02:00.000'' (clock 0 2 0 0),
                  low_reading ''20240101 00:05:00.000'' (clock 0 5 0 0)]
          [low_alert ''20240101 00:00:00.000''])
   \<and> process_telemetry
     (tracking [low_reading ''20240101 00:00:00.000'' (clock 0 0 0 0),
                low_reading ''20240101 00:02:00.000'' (clock 0 2 0 0)] [])
     (low_battery ''20240101 00:05:00.000001'') =
   Inr (tracking [low_reading ''20240101 00:00:00.000'' (clock 0 0 0 0),
                  low_reading ''20240101 00:02:00.000'' (clock 0 2 0 0),
                  low_reading ''20240101 00:05:00.000001'' (clock 0 5 0 1)] [])
   \<and> process_telemetry
     (tracking [low_reading ''20240101 00:00:00.000'' (clock 0 0 0 0),
                low_reading ''20240101 00:10:00.000'' (clock 0 10 0 0),
                low_reading ''20240101 00:12:00.000'' (clock 0 12 0 0)] [])
     (low_battery ''20240101 00:15:00.000'') =
   Inr (tracking [low_reading ''20240101 00:00:00.000'' (clock 0 0 0 0),
                  low_reading ''20240101 00:10:00.000'' (clock 0 10 0 0),
                  low_reading ''20240101 00:12:00.000'' (clock 0 12 0 0),
                  low_reading ''20240101 00:15:00.000'' (clock 0 15 0 0)]
          [low_alert ''20240101 00:10:00.000''])
   \<and> known_component ''BATT''
   \<and> dt_sub (clock 0 15 0 0) (clock 0 10 0 0) = time_window
   \<and> alerts (check_violations (7, ''BATT'')
        (tracking [low_reading ''20240101 00:00:00.000'' (clock 0 0 0 0),
                   low_reading ''20240101 00:10:00.000'' (clock 0 10 0 0),
                   low_reading ''20240101 00:12:00.000'' (clock 0 12 0 0),
                   low_reading ''20240101 00:15:00.000'' (clock 0 15 0 0)] []))
       = [low_alert ''20240101 00:10:00.000'']
   \<and> dt_sub (clock 0 5 0 0) (clock 0 0 0 0) = time_window
   \<and> alerts (check_violations (7, ''BATT'')
        (tracking [low_reading ''20240101 00:00:00.000'' (clock 0 0 0 0),
                   low_reading ''20240101 00:02:00.000'' (clock 0 2 0 0),
                   low_reading ''20240101 00:05:00.000'' (clock 0 5 0 0)] []))
       = [low_alert ''20240101 00:00:00.000'']
   \<and> dt_sub (clock 0 5 0 1) (clock 0 0 0 0) = time_window + 1
   \<and> alerts (check_violations (7, ''BATT'')
        (tracking [low_reading ''20240101 00:00:00.000'' (clock 0 0 0 0),
                   low_reading ''20240101 00:02:00.000'' (clock 0 2 0 0),
                   low_reading ''20240101 00:05:00.000001'' (clock 0 5 0 1)] []))
       = []"
proof -
  let ?r0 = "low_reading ''20240101 00:00:00.000'' (clock 0 0 0 0)"
  let ?r2 = "low_reading ''20240101 00:02:00.000'' (clock 0 2 0 0)"
  let ?r5 = "low_reading ''20240101 00:05:00.000'' (clock 0 5 0 0)"
  let ?r6 = "low_reading ''20240101 00:05:00.000001'' (clock 0 5 0 1)"
  let ?r10 = "low_reading ''20240101 00:10:00.000'' (clock 0 10 0 0)"
  let ?r12 = "low_reading ''20240101 00:12:00.000'' (clock 0 12 0 0)"
  let ?r15 = "low_reading ''20240101 00:15:00.000'' (clock 0 15 0 0)"
  let ?four = "[?r0, ?r10, ?r12, ?r15]"
  have kc: "known_component (snd (7::int, ''BATT''))"
    by (simp add: known_component_def)
  have v4: "?four = sorted_violating (snd (7::int, ''BATT''))
              (readings (tracking ?four []) (7, ''BATT''))"
    by (simp add: sorted_violating_tracking4 dt_key_clock)
  have v5: "[?r0, ?r2, ?r5] = sorted_violating (snd (7::int, ''BATT''))
              (readings (tracking [?r0, ?r2, ?r5] []) (7, ''BATT''))"
    by (simp add: sorted_violating_tracking3 dt_key_clock)
  have v6: "[?r0, ?r2, ?r6] = sorted_violating (snd (7::int, ''BATT''))
              (readings (tracking [?r0, ?r2, ?r6] []) (7, ''BATT''))"
    by (simp add: sorted_violating_tracking3 dt_key_clock)
  have d4: "dt_sub (clock 0 15 0 0) (clock 0 10 0 0) = time_window"
    by (simp add: dt_sub_clock time_window_us)
  have d5: "dt_sub (clock 0 5 0 0) (clock 0 0 0 0) = time_window"
    by (simp add: dt_sub_clock time_window_us)
  have d6: "dt_sub (clock 0 5 0 1) (clock 0 0 0 0) = time_window + 1"
    by (simp add: dt_sub_clock time_window_us)
  have s4: "1 + 2 < length ?four"
    "dt_sub (r_timestamp (?four ! (1 + 2))) (r_timestamp (?four ! 1)) = time_window"
    "\<forall>j<1. time_window < dt_sub (r_timestamp (?four ! (j + 2))) (r_timestamp (?four ! j))"
    using d4 by (simp_all add: low_reading_def dt_sub_clock time_window_us)
  have a4: "alerts (check_violations (7, ''BATT'') (tracking ?four []))
              = add_alert (cluster_alert (7, ''BATT'') (?four ! 1)) (alerts (tracking ?four []))"
    using window_inclusive[OF kc v4] s4 by blast
  have t5: "dt_sub (r_timestamp ?r5) (r_timestamp ?r0) \<le> time_window"
    using d5 by (simp add: low_reading_def)
  have a5: "alerts (check_violations (7, ''BATT'') (tracking [?r0, ?r2, ?r5] []))
              = add_alert (cluster_alert (7, ''BATT'') ?r0) (alerts (tracking [?r0, ?r2, ?r5] []))"
    using window_inclusive[OF kc v5] t5 by simp
  have s6: "\<forall>i. i + 2 < length [?r0, ?r2, ?r6] \<longrightarrow>
      time_window < dt_sub (r_timestamp ([?r0, ?r2, ?r6] ! (i + 2)))
                           (r_timestamp ([?r0, ?r2, ?r6] ! i))"
    using d6 by (simp add: low_reading_def)
  have a6: "alerts (check_violations (7, ''BATT'') (tracking [?r0, ?r2, ?r6] []))
              = alerts (tracking [?r0, ?r2, ?r6] [])"
    using window_inclusive[OF kc v6] s6 by blast
  have c4: "add_alert (cluster_alert (7, ''BATT'') (?four ! 1)) [] =
      [low_alert ''20240101 00:10:00.000'']"
    by (simp add: add_alert_def cluster_alert_def low_alert_def severity_label_def
        low_reading_def)
  have c5: "add_alert (cluster_alert (7, ''BATT'') ?r0) [] = [low_alert ''20240101 00:00:00.000'']"
    by (simp add: add_alert_def cluster_alert_def low_alert_def severity_label_def
        low_reading_def)
  have "known_component ''BATT''"
    by (simp add: known_component_def)
  with a4 a5 a6 c4 c5 d4 d5 d6 ingest_exactly_five ingest_five_and_one ingest_later_cluster
  show ?thesis
    by (simp add: tracking_def)
qed

subsection \<open>C5: a faulty record raises, and nothing catches it\<close>




subsection \<open>C6: unknown components are recorded and never alert\<close>

text \<open>
  Claim C6. An ingest of a reading whose component is neither \<open>TSTAT\<close> nor \<open>BATT\<close>
  appends the reading to the history of its key, changes no other history and leaves the
  alerts as they are, whatever the value and the limits are; the only way it fails is a
  timestamp that does not parse. No alert for such a component ever exists: after any
  sequence of ingests into a new monitor every alert has a known component.
\<close>

theorem unknown_component_never_alerts:
  "(\<not> known_component (data_component d) \<longrightarrow>
      process_telemetry m d =
        (case parse_timestamp (data_timestamp d) of
           Inl e \<Rightarrow> Inl e
         | Inr ts \<Rightarrow>
             Inr (append_reading (data_satelliteId d, data_component d)
                    \<lparr>r_timestamp = ts, r_value = raw_value d, r_limit = red_low_limit d,
                     original_timestamp = data_timestamp d\<rparr> m)))
   \<and> (\<not> known_component (data_component d) \<longrightarrow> process_telemetry m d = Inr m' \<longrightarrow>
        alerts m' = alerts m
        \<and> (\<exists>r. readings m' (data_satelliteId d, data_component d) =
                  readings m (data_satelliteId d, data_component d) @ [r]
               \<and> r_value r = raw_value d \<and> original_timestamp r = data_timestamp d)
        \<and> (\<forall>k. k \<noteq> (data_satelliteId d, data_component d) \<longrightarrow> readings m' k = readings m k))
   \<and> (process_all new_monitor ds = Inr m2 \<longrightarrow>
        (\<forall>a\<in>set (alerts m2). known_component (alert_component a)))"
proof -
  have 1: "\<not> known_component (data_component d) \<longrightarrow>
      process_telemetry m d =
        (case parse_timestamp (data_timestamp d) of
           Inl e \<Rightarrow> Inl e
         | Inr ts \<Rightarrow>
             Inr (append_reading (data_satelliteId d, data_component d)
                    \<lparr>r_timestamp = ts, r_value = raw_value d, r_limit = red_low_limit d,
                     original_timestamp = data_timestamp d\<rparr> m))"
    using process_telemetry_unknown[of d m] by blast
  have 2: "alerts m' = alerts m
        \<and> (\<exists>r. readings m' (data_satelliteId d, data_component d) =
                  readings m (data_satelliteId d, data_component d) @ [r]
               \<and> r_value r = raw_value d \<and> original_timestamp r = data_timestamp d)
        \<and> (\<forall>k. k \<noteq> (data_satelliteId d, data_component d) \<longrightarrow> readings m' k = readings m k)"
    if u: "\<not> known_component (data_component d)" and p: "process_telemetry m d = Inr m'"
  proof (cases "parse_timestamp (data_timestamp d)")
    case (Inl e)
    with p u show ?thesis by (simp add: process_telemetry_unknown)
  next
    case (Inr ts)
    with p u have "m' = append_reading (data_satelliteId d, data_component d)
                    \<lparr>r_timestamp = ts, r_value = raw_value d, r_limit = red_low_limit d,
                     original_timestamp = data_timestamp d\<rparr> m"
      by (simp add: process_telemetry_unknown)
    then show ?thesis
      by (simp add: alerts_append_reading readings_append_reading)
  qed
  have 3: "process_all new_monitor ds = Inr m2 \<longrightarrow>
        (\<forall>a\<in>set (alerts m2). known_component (alert_component a))"
    using known_components_process_all[of new_monitor ds m2] by (simp add: new_monitor_def)
  from 1 2 3 show ?thesis by blast
qed

theorem unknown_component_never_alerts_witness:
  "\<not> known_component (data_component (unknown_device ''20240101 00:00:00.000''))
   \<and> (\<exists>m'. process_telemetry new_monitor (unknown_device ''20240101 00:00:00.000'') = Inr m'
          \<and> alerts m' = []
          \<and> readings m' (7, ''GYRO'') =
              [\<lparr>r_timestamp = clock 0 0 0 0, r_value = Finite 500, r_limit = Finite 20,
                original_timestamp = ''20240101 00:00:00.000''\<rparr>])
   \<and> process_all new_monitor
         [low_battery ''20240101 00:00:00.000'', low_battery ''20240101 00:02:00.000'',
          low_battery ''20240101 00:04:59.000'']
       = Inr (tracking
            [low_reading ''20240101 00:00:00.000'' (clock 0 0 0 0),
             low_reading ''20240101 00:02:00.000'' (clock 0 2 0 0),
             low_reading ''20240101 00:04:59.000'' (clock 0 4 59 0)]
            [low_alert ''20240101 00:00:00.000''])
   \<and> known_component (alert_component (low_alert ''20240101 00:00:00.000''))"
proof -
  let ?d = "unknown_device ''20240101 00:00:00.000''"
  let ?m3 = "tracking
            [low_reading ''20240101 00:00:00.000'' (clock 0 0 0 0),
             low_reading ''20240101 00:02:00.000'' (clock 0 2 0 0),
             low_reading ''20240101 00:04:59.000'' (clock 0 4 59 0)]
            [low_alert ''20240101 00:00:00.000'']"
  note t = unknown_component_never_alerts[of ?d new_monitor _
      "[low_battery ''20240101 00:00:00.000'', low_battery ''20240101 00:02:00.000'',
        low_battery ''20240101 00:04:59.000'']" ?m3]
  have u: "\<not> known_component (data_component ?d)"
    by (simp add: unknown_device_def known_component_def)
  have p: "parse_timestamp (data_timestamp ?d) = Inr (clock 0 0 0 0)"
    by (simp add: unknown_device_def parse_000000)
  from t u p have
    "process_telemetry new_monitor ?d =
       Inr (append_reading (data_satelliteId ?d, data_component ?d)
              \<lparr>r_timestamp = clock 0 0 0 0, r_value = raw_value ?d,
               r_limit = red_low_limit ?d, original_timestamp = data_timestamp ?d\<rparr>
              new_monitor)"
    by simp
  then have 1: "\<exists>m'. process_telemetry new_monitor ?d = Inr m'
          \<and> alerts m' = []
          \<and> readings m' (7, ''GYRO'') =
              [\<lparr>r_timestamp = clock 0 0 0 0, r_value = Finite 500, r_limit = Finite 20,
                original_timestamp = ''20240101 00:00:00.000''\<rparr>]"
    by (simp add: append_reading_def new_monitor_def unknown_device_def)
  from t process_all_three
  have 2: "\<forall>a\<in>set (alerts ?m3). known_component (alert_component a)"
    by blast
  have "low_alert ''20240101 00:00:00.000'' \<in> set (alerts ?m3)"
    by (simp add: tracking_def)
  with 2 have 3: "known_component (alert_component (low_alert ''20240101 00:00:00.000''))"
    by blast
  from u 1 3 process_all_three show ?thesis by blast
qed

subsection \<open>C7: which limit a reading keeps\<close>

text \<open>
  Claim C7. The reading an ingest stores has the record's red-high limit as its limit
  when the component is \<open>TSTAT\<close>, and the record's red-low limit for every other
  component, \<open>BATT\<close> and unknown ones alike. For a record that \<open>parse_line\<close> produced,
  these two limits are the floats of the third and the sixth field of the line.
\<close>

theorem limit_selection:
  "(process_telemetry m d = Inr m' \<longrightarrow>
      (\<exists>r. readings m' (data_satelliteId d, data_component d) =
               readings m (data_satelliteId d, data_component d) @ [r]
          \<and> r_limit r = (if data_component d = ''TSTAT'' then red_high_limit d
                          else red_low_limit d)
          \<and> r_value r = raw_value d))
   \<and> (parse_line to_int to_float line = Inr d \<longrightarrow>
        to_float (split CHR ''|'' (strip line) ! 2) = Some (red_high_limit d)
        \<and> to_float (split CHR ''|'' (strip line) ! 5) = Some (red_low_limit d)
        \<and> data_component d = split CHR ''|'' (strip line) ! 7)"
proof -
  have 1: "\<exists>r. readings m' (data_satelliteId d, data_component d) =
               readings m (data_satelliteId d, data_component d) @ [r]
          \<and> r_limit r = (if data_component d = ''TSTAT'' then red_high_limit d
                          else red_low_limit d)
          \<and> r_value r = raw_value d"
    if "process_telemetry m d = Inr m'"
  proof -
    from process_telemetry_Inr[OF that] obtain ts where
      "m' = check_violations (data_satelliteId d, data_component d)
            (append_reading (data_satelliteId d, data_component d)
               \<lparr>r_timestamp = ts, r_value = raw_value d,
                r_limit = (if data_component d = ''TSTAT'' then red_high_limit d
                           else red_low_limit d),
                original_timestamp = data_timestamp d\<rparr> m)"
      by blast
    then show ?thesis
      by (simp add: readings_check_violations readings_append_reading)
  qed
  have 2: "parse_line to_int to_float line = Inr d \<longrightarrow>
        to_float (split CHR ''|'' (strip line) ! 2) = Some (red_high_limit d)
        \<and> to_float (split CHR ''|'' (strip line) ! 5) = Some (red_low_limit d)
        \<and> data_component d = split CHR ''|'' (strip line) ! 7"
    by (simp add: parse_line_Inr Let_def)
  from 1 2 show ?thesis by blast
qed

theorem limit_selection_witness:
  "(\<exists>m' r. process_telemetry new_monitor (hot_thermostat ''20240101 00:00:00.000'') = Inr m'
        \<and> readings m' (7, ''TSTAT'') = [r] \<and> r_limit r = Finite 101)
   \<and> (\<exists>m' r. process_telemetry new_monitor (low_battery ''20240101 00:00:00.000'') = Inr m'
        \<and> readings m' (7, ''BATT'') = [r] \<and> r_limit r = Finite 8)
   \<and> (\<exists>m' r. process_telemetry new_monitor (unknown_device ''20240101 00:00:00.000'') = Inr m'
        \<and> readings m' (7, ''GYRO'') = [r] \<and> r_limit r = Finite 20)
   \<and> parse_line plain_int plain_float ''20240101 00:00:00.000|7|17|15|9|8|7.5|BATT''
       = Inr (low_battery ''20240101 00:00:00.000'')
   \<and> plain_float (split CHR ''|'' (strip ''20240101 00:00:00.000|7|17|15|9|8|7.5|BATT'') ! 5)
       = Some (Finite 8)"
proof -
  have ex: "\<exists>m'. process_telemetry new_monitor d = Inr m'"
    if "data_timestamp d = ''20240101 00:00:00.000''" for d
    using that by (simp add: process_telemetry_eq parse_000000)
  have 1: "\<exists>m' r. process_telemetry new_monitor (hot_thermostat ''20240101 00:00:00.000'') = Inr m'
        \<and> readings m' (7, ''TSTAT'') = [r] \<and> r_limit r = Finite 101"
  proof -
    from ex[of "hot_thermostat ''20240101 00:00:00.000''"] obtain m' where
      m': "process_telemetry new_monitor (hot_thermostat ''20240101 00:00:00.000'') = Inr m'"
      by (auto simp: hot_thermostat_def)
    from limit_selection[THEN conjunct1, rule_format, OF m'] m'
    show ?thesis by (auto simp: hot_thermostat_def new_monitor_def)
  qed
  have 2: "\<exists>m' r. process_telemetry new_monitor (low_battery ''20240101 00:00:00.000'') = Inr m'
        \<and> readings m' (7, ''BATT'') = [r] \<and> r_limit r = Finite 8"
  proof -
    from ex[of "low_battery ''20240101 00:00:00.000''"] obtain m' where
      m': "process_telemetry new_monitor (low_battery ''20240101 00:00:00.000'') = Inr m'"
      by (auto simp: low_battery_def)
    from limit_selection[THEN conjunct1, rule_format, OF m'] m'
    show ?thesis by (auto simp: low_battery_def new_monitor_def)
  qed
  have 3: "\<exists>m' r. process_telemetry new_monitor (unknown_device ''20240101 00:00:00.000'') = Inr m'
        \<and> readings m' (7, ''GYRO'') = [r] \<and> r_limit r = Finite 20"
  proof -
    from ex[of "unknown_device ''20240101 00:00:00.000''"] obtain m' where
      m': "process_telemetry new_monitor (unknown_device ''20240101 00:00:00.000'') = Inr m'"
      by (auto simp: unknown_device_def)
    from limit_selection[THEN conjunct1, rule_format, OF m'] m'
    show ?thesis by (auto simp: unknown_device_def new_monitor_def)
  qed
  have 4: "plain_float (split CHR ''|'' (strip ''20240101 00:00:00.000|7|17|15|9|8|7.5|BATT'') ! 5)
       = Some (Finite 8)"
    using limit_selection[of _ "low_battery ''20240101 00:00:00.000''" _ plain_int plain_float
        "''20240101 00:00:00.000|7|17|15|9|8|7.5|BATT''"] parse_first_line
    by (simp add: low_battery_def)
  from 1 2 3 4 parse_first_line show ?thesis by blast
qed

subsection \<open>C8: how an alert's timestamp is rendered\<close>




subsection \<open>C9: the scan runs over sorted readings\<close>

text \<open>
  Claim C9. Whenever the scan runs for a key, the list it scans is sorted ascending by
  timestamp and holds exactly the key's violating readings. The tracker sorts itself and
  does not rely on the order of arrival: two histories of a key with the same readings in
  different orders, no two of them at the same instant, give the same alerts.
\<close>

theorem scan_sees_sorted_readings:
  "(known_component (snd k) \<longrightarrow> 3 \<le> length (filter (violating (snd k)) (readings m k)) \<longrightarrow>
      (\<exists>vs. sorted (map (\<lambda>x. dt_key (r_timestamp x)) vs)
          \<and> mset vs = mset (filter (violating (snd k)) (readings m k))
          \<and> alerts (check_violations k m) =
              scan_triplets (fst k) (severity_label (snd k)) (snd k) vs 0 (alerts m)))
   \<and> (mset (readings m1 k) = mset (readings m2 k) \<longrightarrow> alerts m1 = alerts m2 \<longrightarrow>
        distinct (map (\<lambda>x. dt_key (r_timestamp x)) (readings m1 k)) \<longrightarrow>
        alerts (check_violations k m1) = alerts (check_violations k m2))"
proof -
  have a: "known_component (snd k) \<longrightarrow> 3 \<le> length (filter (violating (snd k)) (readings m k)) \<longrightarrow>
      (\<exists>vs. sorted (map (\<lambda>x. dt_key (r_timestamp x)) vs)
          \<and> mset vs = mset (filter (violating (snd k)) (readings m k))
          \<and> alerts (check_violations k m) =
              scan_triplets (fst k) (severity_label (snd k)) (snd k) vs 0 (alerts m))"
    using check_violations_scan[of k m] sorted_violating_sorted[of "snd k" "readings m k"]
      sorted_violating_mset[of "snd k" "readings m k"] by blast
  have b: "alerts (check_violations k m1) = alerts (check_violations k m2)"
    if p: "mset (readings m1 k) = mset (readings m2 k)" and al: "alerts m1 = alerts m2"
      and d: "distinct (map (\<lambda>x. dt_key (r_timestamp x)) (readings m1 k))"
  proof (cases "known_component (snd k)")
    case True
    have sv: "sorted_violating (snd k) (readings m1 k) = sorted_violating (snd k) (readings m2 k)"
      by (rule sorted_violating_perm[OF p d])
    show ?thesis
      unfolding alerts_check_violations[OF True] al sv by (rule refl)
  next
    case False
    then show ?thesis using al by (simp add: check_violations_unknown)
  qed
  from a b show ?thesis by blast
qed

theorem scan_sees_sorted_readings_witness:
  "known_component ''BATT''
   \<and> 3 \<le> length (filter (violating ''BATT'')
         [low_reading ''20240101 00:04:59.000'' (clock 0 4 59 0),
          low_reading ''20240101 00:00:00.000'' (clock 0 0 0 0),
          low_reading ''20240101 00:02:00.000'' (clock 0 2 0 0)])
   \<and> (\<exists>vs. sorted (map (\<lambda>x. dt_key (r_timestamp x)) vs)
         \<and> mset vs = mset (filter (violating ''BATT'')
             [low_reading ''20240101 00:04:59.000'' (clock 0 4 59 0),
              low_reading ''20240101 00:00:00.000'' (clock 0 0 0 0),
              low_reading ''20240101 00:02:00.000'' (clock 0 2 0 0)])
         \<and> alerts (check_violations (7, ''BATT'')
              (tracking [low_reading ''20240101 00:04:59.000'' (clock 0 4 59 0),
                         low_reading ''20240101 00:00:00.000'' (clock 0 0 0 0),
                         low_reading ''20240101 00:02:00.000'' (clock 0 2 0 0)] []))
            = scan_triplets 7 ''RED LOW'' ''BATT'' vs 0 [])
   \<and> alerts (check_violations (7, ''BATT'')
         (tracking [low_reading ''20240101 00:04:59.000'' (clock 0 4 59 0),
                    low_reading ''20240101 00:00:00.000'' (clock 0 0 0 0),
                    low_reading ''20240101 00:02:00.000'' (clock 0 2 0 0)] []))
       = alerts (check_violations (7, ''BATT'')
         (tracking [low_reading ''20240101 00:00:00.000'' (clock 0 0 0 0),
                    low_reading ''20240101 00:02:00.000'' (clock 0 2 0 0),
                    low_reading ''20240101 00:04:59.000'' (clock 0 4 59 0)] []))"
proof -
  let ?r1 = "low_reading ''20240101 00:00:00.000'' (clock 0 0 0 0)"
  let ?r2 = "low_reading ''20240101 00:02:00.000'' (clock 0 2 0 0)"
  let ?r3 = "low_reading ''20240101 00:04:59.000'' (clock 0 4 59 0)"
  let ?late = "tracking [?r3, ?r1, ?r2] []"
  let ?inorder = "tracking [?r1, ?r2, ?r3] []"
  note t = scan_sees_sorted_readings[of "(7, ''BATT'')" ?late ?late ?inorder]
  have kc: "known_component (snd (7::int, ''BATT''))"
    by (simp add: known_component_def)
  have len: "3 \<le> length (filter (violating (snd (7::int, ''BATT''))) (readings ?late (7, ''BATT'')))"
    by (simp add: tracking_def violating_def low_reading_def)
  have ms: "mset (readings ?late (7, ''BATT'')) = mset (readings ?inorder (7, ''BATT''))"
    by (simp add: tracking_def)
  have al: "alerts ?late = alerts ?inorder"
    by (simp add: tracking_def)
  have di: "distinct (map (\<lambda>x. dt_key (r_timestamp x)) (readings ?late (7, ''BATT'')))"
    by (simp add: tracking_def low_reading_def dt_key_clock)
  from t kc len have 1: "\<exists>vs. sorted (map (\<lambda>x. dt_key (r_timestamp x)) vs)
          \<and> mset vs = mset (filter (violating (snd (7::int, ''BATT''))) (readings ?late (7, ''BATT'')))
          \<and> alerts (check_violations (7, ''BATT'') ?late) =
              scan_triplets (fst (7::int, ''BATT'')) (severity_label (snd (7::int, ''BATT'')))
                (snd (7::int, ''BATT'')) vs 0 (alerts ?late)"
    by blast
  from t ms al di have 2: "alerts (check_violations (7, ''BATT'') ?late)
      = alerts (check_violations (7, ''BATT'') ?inorder)"
    by blast
  have r: "readings ?late (7, ''BATT'') = [?r3, ?r1, ?r2]" "alerts ?late = []"
    by (simp_all add: tracking_def)
  from 1 2 len show ?thesis
    unfolding r by (simp add: known_component_def severity_label_def)
qed

subsection \<open>C10: fields beyond the eighth are ignored\<close>

text \<open>
  Claim C10. A line with eight fields or more whose satellite id is an integer and whose
  five numbers are floats is parsed successfully: the record is made of the first eight
  fields, and whatever follows them is not looked at. That a record has exactly eight
  fields is not checked.
\<close>

theorem extra_fields_ignored:
  assumes "fs = split CHR ''|'' (strip line)"
    and "8 \<le> length fs"
    and "to_int (fs ! 1) = Some sid"
    and "to_float (fs ! 2) = Some rh"
    and "to_float (fs ! 3) = Some yh"
    and "to_float (fs ! 4) = Some yl"
    and "to_float (fs ! 5) = Some rl"
    and "to_float (fs ! 6) = Some rv"
  shows "parse_line to_int to_float line =
     Inr \<lparr>data_timestamp = fs ! 0, data_satelliteId = sid, red_high_limit = rh,
          yellow_high_limit = yh, yellow_low_limit = yl, red_low_limit = rl,
          raw_value = rv, data_component = fs ! 7\<rparr>"
  using assms by (simp add: parse_line_Inr Let_def)

theorem extra_fields_ignored_witness:
  "8 < length (split CHR ''|''
         (strip ''20240101 00:00:00.000|7|17|15|9|8|7.5|BATT|extra|more''))
   \<and> parse_line plain_int plain_float
         ''20240101 00:00:00.000|7|17|15|9|8|7.5|BATT|extra|more''
       = Inr (low_battery ''20240101 00:00:00.000'')
   \<and> parse_line plain_int plain_float
         ''20240101 00:00:00.000|7|17|15|9|8|7.5|BATT|extra|more''
       = parse_line plain_int plain_float ''20240101 00:00:00.000|7|17|15|9|8|7.5|BATT''"
  using extra_fields_ignored[OF split_long[symmetric], of plain_int 7 plain_float
      "Finite 17" "Finite 15" "Finite 9" "Finite 8" "Finite (15 / 2)"]
  by (simp add: split_long plain_int_7 plain_float_samples low_battery_def parse_first_line)

end
